theory Spec2Isabelle
  imports Main "HOL-Library.Word"
begin

unbundle bit_operations_syntax

section \<open>Data model of f\_fs.c\<close>

text \<open>
  The session object \<^verbatim>\<open>struct ffs_data\<close> is declared in \<^verbatim>\<open>u_fs.h\<close>; the fields below are
  the ones that the functions of \<^verbatim>\<open>f_fs.c\<close> modelled here read or write.  Error returns
  (\<^verbatim>\<open>-EINVAL\<close>, ...) are values of \<open>errno\<close>; a function that can fail returns
  \<open>errno + 'a\<close> with \<open>Inl\<close> for the error.
\<close>

type_synonym u8 = "8 word"
type_synonym u16 = "16 word"
type_synonym u32 = "32 word"

datatype errno =
    EINVAL | ENOSYS | EIDRM | EBADFD | ESRCH | EL2HLT | ENOMEM | EFAULT | EINTR
  | EAGAIN | ENODEV | ESHUTDOWN | EBADMSG | EOVERFLOW | EIO | ERESTARTSYS
  | EOTHER int

datatype ffs_state =
  FFS_READ_DESCRIPTORS | FFS_READ_STRINGS | FFS_ACTIVE | FFS_DEACTIVATED | FFS_CLOSING

datatype ffs_setup_state = FFS_NO_SETUP | FFS_SETUP_PENDING | FFS_SETUP_CANCELLED

datatype usb_functionfs_event_type =
    FUNCTIONFS_BIND | FUNCTIONFS_UNBIND | FUNCTIONFS_ENABLE | FUNCTIONFS_DISABLE
  | FUNCTIONFS_SETUP | FUNCTIONFS_SUSPEND | FUNCTIONFS_RESUME

record usb_ctrlrequest =
  bRequestType :: u8
  bRequest :: u8
  wValue :: u16
  wIndex :: u16
  wLength :: u16

record usb_functionfs_event =
  event_type :: usb_functionfs_event_type
  event_setup :: usb_ctrlrequest

record ffs_data =
  state :: ffs_state
  setup_state :: ffs_setup_state
  ev_types :: "usb_functionfs_event_type list"
  ev_count :: nat
  ev_can_stall :: bool
  ev_setup :: usb_ctrlrequest
  user_flags :: u32
  ffs_eventfd :: "nat option"
  eps_addrmap :: "u8 list"
  strings_count :: u16
  interfaces_count :: u16
  eps_count :: u16
  raw_descs_data :: "u8 list option"
  raw_descs :: "u8 list"
  raw_descs_length :: nat
  fs_descs_count :: u32
  hs_descs_count :: u32
  ss_descs_count :: u32
  ms_os_descs_count :: u32
  ms_os_descs_ext_prop_count :: u32
  ms_os_descs_ext_prop_name_len :: u32
  ms_os_descs_ext_prop_data_len :: u32
  raw_strings :: "u8 list option"
  stringtabs :: "(u16 \<times> u8 list list) list option"

definition zero_ctrlrequest :: usb_ctrlrequest where
  "zero_ctrlrequest =
     \<lparr>bRequestType = 0, bRequest = 0, wValue = 0, wIndex = 0, wLength = 0\<rparr>"

text \<open>
  \<^verbatim>\<open>ffs_data_new\<close>: the object is allocated zeroed (\<^verbatim>\<open>kzalloc\<close>), then the lifecycle
  state and \<^verbatim>\<open>ev.can_stall\<close> are set.  The zero byte in \<^verbatim>\<open>ev.types\<close> is
  \<^verbatim>\<open>FUNCTIONFS_BIND\<close>, the first enumerator.
\<close>

definition ffs_data_new :: ffs_data where
  "ffs_data_new =
     \<lparr>state = FFS_READ_DESCRIPTORS, setup_state = FFS_NO_SETUP,
      ev_types = [FUNCTIONFS_BIND, FUNCTIONFS_BIND, FUNCTIONFS_BIND, FUNCTIONFS_BIND],
      ev_count = 0, ev_can_stall = True,
      ev_setup = zero_ctrlrequest, user_flags = 0, ffs_eventfd = None,
      eps_addrmap = [0, 0, 0, 0, 0, 0, 0, 0, 0, 0, 0, 0, 0, 0, 0], strings_count = 0, interfaces_count = 0,
      eps_count = 0, raw_descs_data = None, raw_descs = [], raw_descs_length = 0,
      fs_descs_count = 0, hs_descs_count = 0, ss_descs_count = 0,
      ms_os_descs_count = 0, ms_os_descs_ext_prop_count = 0,
      ms_os_descs_ext_prop_name_len = 0, ms_os_descs_ext_prop_data_len = 0,
      raw_strings = None, stringtabs = None\<rparr>"

text \<open>
  \<^verbatim>\<open>ffs_setup_state_clear_cancelled\<close>: \<^verbatim>\<open>cmpxchg(&ffs->setup_state, FFS_SETUP_CANCELLED,
  FFS_NO_SETUP)\<close> returns the old value and replaces a cancelled state by no-setup.
\<close>

definition ffs_setup_state_clear_cancelled :: "ffs_data \<Rightarrow> ffs_setup_state \<times> ffs_data" where
  "ffs_setup_state_clear_cancelled ffs =
     (setup_state ffs,
      if setup_state ffs = FFS_SETUP_CANCELLED then ffs\<lparr>setup_state := FFS_NO_SETUP\<rparr>
      else ffs)"

section \<open>Event queue\<close>

text \<open>
  The queue is the array \<^verbatim>\<open>ffs->ev.types\<close> (four slots) with its fill count
  \<^verbatim>\<open>ffs->ev.count\<close>.  An access at an index outside the array is undefined behaviour in
  C; the model returns \<open>None\<close> there, so that "the array never overflows" is a statement
  that can be proved.

  The purge loop of \<^verbatim>\<open>__ffs_event_add\<close>:
  \<^verbatim>\<open>for (; n; --n, ++ev) if ((*ev == rem_type1 || *ev == rem_type2) == neg) *out++ = *ev;\<close>
  with \<open>ev\<close> and \<open>out\<close> as indices into the array.
\<close>

fun purge_events ::
  "usb_functionfs_event_type list \<Rightarrow> nat \<Rightarrow> nat \<Rightarrow> nat \<Rightarrow>
   usb_functionfs_event_type \<Rightarrow> usb_functionfs_event_type \<Rightarrow> bool \<Rightarrow>
   (usb_functionfs_event_type list \<times> nat) option" where
  "purge_events types ev out 0 rem_type1 rem_type2 neg = Some (types, out)"
| "purge_events types ev out (Suc n) rem_type1 rem_type2 neg =
     (if ev < length types \<and> out < length types then
        (if ((types ! ev = rem_type1 \<or> types ! ev = rem_type2) = neg)
         then purge_events (types[out := types ! ev]) (Suc ev) (Suc out) n
                rem_type1 rem_type2 neg
         else purge_events types (Suc ev) out n rem_type1 rem_type2 neg)
      else None)"

text \<open>The \<^verbatim>\<open>switch (type)\<close> of \<^verbatim>\<open>__ffs_event_add\<close>: \<open>(rem_type1, rem_type2, neg)\<close>.\<close>

fun rem_types ::
  "usb_functionfs_event_type \<Rightarrow>
   usb_functionfs_event_type \<times> usb_functionfs_event_type \<times> bool" where
  "rem_types FUNCTIONFS_RESUME = (FUNCTIONFS_RESUME, FUNCTIONFS_SUSPEND, False)"
| "rem_types FUNCTIONFS_SUSPEND = (FUNCTIONFS_SUSPEND, FUNCTIONFS_SUSPEND, False)"
| "rem_types FUNCTIONFS_SETUP = (FUNCTIONFS_SETUP, FUNCTIONFS_SETUP, False)"
| "rem_types FUNCTIONFS_BIND = (FUNCTIONFS_SUSPEND, FUNCTIONFS_RESUME, True)"
| "rem_types FUNCTIONFS_UNBIND = (FUNCTIONFS_SUSPEND, FUNCTIONFS_RESUME, True)"
| "rem_types FUNCTIONFS_DISABLE = (FUNCTIONFS_SUSPEND, FUNCTIONFS_RESUME, True)"
| "rem_types FUNCTIONFS_ENABLE = (FUNCTIONFS_SUSPEND, FUNCTIONFS_RESUME, True)"

text \<open>
  \<^verbatim>\<open>__ffs_event_add\<close>.  The wake-up of the wait queue and the eventfd signal have no
  effect on the session object and are left out.
\<close>

definition ffs_event_add ::
  "ffs_data \<Rightarrow> usb_functionfs_event_type \<Rightarrow> ffs_data option" where
  "ffs_event_add ffs type =
     (let ffs1 = (if setup_state ffs = FFS_SETUP_PENDING
                  then ffs\<lparr>setup_state := FFS_SETUP_CANCELLED\<rparr> else ffs)
      in case rem_types type of (rem_type1, rem_type2, neg) \<Rightarrow>
         (case purge_events (ev_types ffs1) 0 0 (ev_count ffs1) rem_type1 rem_type2 neg of
            None \<Rightarrow> None
          | Some (types, cnt) \<Rightarrow>
              if cnt < length types
              then Some (ffs1\<lparr>ev_types := types[cnt := type], ev_count := Suc cnt\<rparr>)
              else None))"

text \<open>
  \<^verbatim>\<open>__ffs_ep0_read_events\<close>: the \<^verbatim>\<open>do { ... } while (++i < n)\<close> loop fills the local
  array \<^verbatim>\<open>events\<close> (four slots, zeroed first), then the first \<open>n\<close> types are removed
  from the queue with \<^verbatim>\<open>memmove\<close>.
\<close>

function read_events_loop ::
  "ffs_data \<Rightarrow> nat \<Rightarrow> nat \<Rightarrow> usb_functionfs_event list \<Rightarrow>
   (ffs_data \<times> usb_functionfs_event list) option" where
  "read_events_loop ffs i n events =
     (if i < length (ev_types ffs) \<and> i < length events then
        (let t = ev_types ffs ! i;
             e = (if t = FUNCTIONFS_SETUP
                  then \<lparr>event_type = t, event_setup = ev_setup ffs\<rparr>
                  else (events ! i)\<lparr>event_type := t\<rparr>);
             ffs' = (if t = FUNCTIONFS_SETUP
                     then ffs\<lparr>setup_state := FFS_SETUP_PENDING\<rparr> else ffs)
         in if Suc i < n then read_events_loop ffs' (Suc i) n (events[i := e])
            else Some (ffs', events[i := e]))
      else None)"
  by pat_completeness auto
termination
  by (relation "measure (\<lambda>(ffs, i, n, events). n - i)") auto

declare read_events_loop.simps [simp del]

definition ffs_ep0_read_events ::
  "ffs_data \<Rightarrow> nat \<Rightarrow> (ffs_data \<times> usb_functionfs_event list) option" where
  "ffs_ep0_read_events ffs n =
     (case read_events_loop ffs 0 n
             (replicate 4 \<lparr>event_type = FUNCTIONFS_BIND, event_setup = zero_ctrlrequest\<rparr>) of
        None \<Rightarrow> None
      | Some (ffs1, events) \<Rightarrow>
          (if n \<le> ev_count ffs1 \<and> ev_count ffs1 \<le> length (ev_types ffs1) then
             (let cnt = ev_count ffs1 - n
              in Some (ffs1\<lparr>ev_count := cnt,
                           ev_types := take cnt (drop n (ev_types ffs1)) @
                                       drop cnt (ev_types ffs1)\<rparr>,
                       take n events))
           else None))"

text \<open>The queued events, oldest first: the first \<^verbatim>\<open>ev.count\<close> slots of the array.\<close>

definition queue :: "ffs_data \<Rightarrow> usb_functionfs_event_type list" where
  "queue ffs = take (ev_count ffs) (ev_types ffs)"


text \<open>
  One step of the queue's life: the transport enqueues an event, or the controlling
  process reads events with room for \<open>n\<close> records.  The read follows the
  \<^verbatim>\<open>FFS_NO_SETUP\<close> branch of \<^verbatim>\<open>ffs_ep0_read\<close>: nothing is consumed when \<open>n\<close> is zero
  (\<^verbatim>\<open>-EINVAL\<close>) or the queue is empty, otherwise \<^verbatim>\<open>min(n, ev.count)\<close> events are.
\<close>

datatype ev_op = Enqueue usb_functionfs_event_type | Consume nat

fun ev_step :: "ffs_data \<Rightarrow> ev_op \<Rightarrow> ffs_data option" where
  "ev_step ffs (Enqueue type) = ffs_event_add ffs type"
| "ev_step ffs (Consume n) =
     (if n = 0 \<or> ev_count ffs = 0 then Some ffs
      else map_option fst (ffs_ep0_read_events ffs (min n (ev_count ffs))))"

fun ev_run :: "ffs_data \<Rightarrow> ev_op list \<Rightarrow> ffs_data option" where
  "ev_run ffs [] = Some ffs"
| "ev_run ffs (op # ops) =
     (case ev_step ffs op of None \<Rightarrow> None | Some ffs' \<Rightarrow> ev_run ffs' ops)"

text \<open>
  Proof vocabulary for the queue: the four categories of events, the events that an
  enqueue of \<open>type\<close> keeps, and the invariant of the queue.
\<close>

fun category :: "usb_functionfs_event_type \<Rightarrow> nat" where
  "category FUNCTIONFS_SUSPEND = 0"
| "category FUNCTIONFS_RESUME = 1"
| "category FUNCTIONFS_SETUP = 2"
| "category FUNCTIONFS_BIND = 3"
| "category FUNCTIONFS_UNBIND = 3"
| "category FUNCTIONFS_ENABLE = 3"
| "category FUNCTIONFS_DISABLE = 3"

definition kept :: "usb_functionfs_event_type \<Rightarrow> usb_functionfs_event_type \<Rightarrow> bool" where
  "kept type e = (case rem_types type of (r1, r2, neg) \<Rightarrow> (e = r1 \<or> e = r2) = neg)"

definition ev_inv :: "ffs_data \<Rightarrow> bool" where
  "ev_inv ffs = (length (ev_types ffs) = 4 \<and> ev_count ffs \<le> 4 \<and>
                 distinct (map category (queue ffs)))"

section \<open>Descriptor parser\<close>

text \<open>
  Modelled from the spec: the wire-format constants and the descriptor layouts are
  declared in \<^verbatim>\<open>linux/usb/functionfs.h\<close>, \<^verbatim>\<open>linux/usb/ch9.h\<close>, \<^verbatim>\<open>linux/hid.h\<close> and
  \<^verbatim>\<open>u_os_desc.h\<close>, which are outside the source file.  The values are those of the
  "descriptor blob wire format" and of the USB descriptor grammar that the specification
  refers to: magic tags, the flag bit per speed tier, descriptor-type tags, and the fixed
  sizes of the descriptor records.
\<close>

definition FUNCTIONFS_DESCRIPTORS_MAGIC :: u32 where "FUNCTIONFS_DESCRIPTORS_MAGIC = 1"
definition FUNCTIONFS_STRINGS_MAGIC :: u32 where "FUNCTIONFS_STRINGS_MAGIC = 2"
definition FUNCTIONFS_DESCRIPTORS_MAGIC_V2 :: u32 where "FUNCTIONFS_DESCRIPTORS_MAGIC_V2 = 3"

definition FUNCTIONFS_HAS_FS_DESC :: u32 where "FUNCTIONFS_HAS_FS_DESC = 1"
definition FUNCTIONFS_HAS_HS_DESC :: u32 where "FUNCTIONFS_HAS_HS_DESC = 2"
definition FUNCTIONFS_HAS_SS_DESC :: u32 where "FUNCTIONFS_HAS_SS_DESC = 4"
definition FUNCTIONFS_HAS_MS_OS_DESC :: u32 where "FUNCTIONFS_HAS_MS_OS_DESC = 8"
definition FUNCTIONFS_VIRTUAL_ADDR :: u32 where "FUNCTIONFS_VIRTUAL_ADDR = 16"
definition FUNCTIONFS_EVENTFD :: u32 where "FUNCTIONFS_EVENTFD = 32"

definition USB_DT_DEVICE :: u8 where "USB_DT_DEVICE = 1"
definition USB_DT_CONFIG :: u8 where "USB_DT_CONFIG = 2"
definition USB_DT_STRING :: u8 where "USB_DT_STRING = 3"
definition USB_DT_INTERFACE :: u8 where "USB_DT_INTERFACE = 4"
definition USB_DT_ENDPOINT :: u8 where "USB_DT_ENDPOINT = 5"
definition USB_DT_DEVICE_QUALIFIER :: u8 where "USB_DT_DEVICE_QUALIFIER = 6"
definition USB_DT_OTHER_SPEED_CONFIG :: u8 where "USB_DT_OTHER_SPEED_CONFIG = 7"
definition USB_DT_INTERFACE_POWER :: u8 where "USB_DT_INTERFACE_POWER = 8"
definition USB_DT_OTG :: u8 where "USB_DT_OTG = 9"
definition USB_DT_DEBUG :: u8 where "USB_DT_DEBUG = 10"
definition USB_DT_INTERFACE_ASSOCIATION :: u8 where "USB_DT_INTERFACE_ASSOCIATION = 11"
definition USB_DT_SECURITY :: u8 where "USB_DT_SECURITY = 12"
definition HID_DT_HID :: u8 where "HID_DT_HID = 0x21"
definition USB_DT_CS_RADIO_CONTROL :: u8 where "USB_DT_CS_RADIO_CONTROL = 0x23"
definition USB_DT_SS_ENDPOINT_COMP :: u8 where "USB_DT_SS_ENDPOINT_COMP = 0x30"

definition USB_ENDPOINT_NUMBER_MASK :: u8 where "USB_ENDPOINT_NUMBER_MASK = 0x0f"
definition USB_DIR_IN :: u8 where "USB_DIR_IN = 0x80"

definition USB_DT_INTERFACE_SIZE :: nat where "USB_DT_INTERFACE_SIZE = 9"
definition USB_DT_ENDPOINT_SIZE :: nat where "USB_DT_ENDPOINT_SIZE = 7"
definition USB_DT_ENDPOINT_AUDIO_SIZE :: nat where "USB_DT_ENDPOINT_AUDIO_SIZE = 9"
definition sizeof_hid_descriptor :: nat where "sizeof_hid_descriptor = 9"
definition sizeof_usb_otg_descriptor :: nat where "sizeof_usb_otg_descriptor = 3"
definition sizeof_usb_interface_assoc_descriptor :: nat where
  "sizeof_usb_interface_assoc_descriptor = 8"
definition sizeof_usb_ss_ep_comp_descriptor :: nat where "sizeof_usb_ss_ep_comp_descriptor = 6"
definition sizeof_usb_os_desc_header :: nat where "sizeof_usb_os_desc_header = 11"
definition sizeof_usb_ext_compat_desc :: nat where "sizeof_usb_ext_compat_desc = 24"
definition sizeof_usb_ext_prop_desc :: nat where "sizeof_usb_ext_prop_desc = 10"
definition USB_EXT_PROP_UNICODE :: u32 where "USB_EXT_PROP_UNICODE = 1"
definition USB_EXT_PROP_UNICODE_MULTI :: u32 where "USB_EXT_PROP_UNICODE_MULTI = 7"

text \<open>
  A pointer into the blob together with the remaining length (\<^verbatim>\<open>data\<close>, \<^verbatim>\<open>len\<close>) is
  the list of the remaining bytes: \<^verbatim>\<open>data += k; len -= k\<close> is \<open>drop k\<close>, and
  \<^verbatim>\<open>len < k\<close> is \<open>length data < k\<close>.  The blob is at most a few megabytes
  (\<^verbatim>\<open>kmalloc\<close>), so the conversions between \<^verbatim>\<open>size_t\<close>, \<^verbatim>\<open>unsigned\<close> and \<^verbatim>\<open>int\<close>
  of a length never wrap and lengths are natural numbers.
\<close>

definition get_unaligned_le16 :: "u8 list \<Rightarrow> u16" where
  "get_unaligned_le16 data = of_nat (unat (data ! 0) + 256 * unat (data ! 1))"

definition get_unaligned_le32 :: "u8 list \<Rightarrow> u32" where
  "get_unaligned_le32 data =
     of_nat (unat (data ! 0) + 256 * unat (data ! 1) + 65536 * unat (data ! 2) +
             16777216 * unat (data ! 3))"

datatype ffs_entity_type = FFS_DESCRIPTOR | FFS_INTERFACE | FFS_STRING | FFS_ENDPOINT

datatype ffs_os_desc_type = FFS_OS_DESC | FFS_OS_DESC_EXT_COMPAT | FFS_OS_DESC_EXT_PROP

record ffs_desc_helper =
  helper_ffs :: ffs_data
  helper_interfaces_count :: u32
  helper_eps_count :: u32

text \<open>
  An entity callback gets the entity type, the value (\<^verbatim>\<open>*valuep\<close>; for
  \<^verbatim>\<open>FFS_DESCRIPTOR\<close> the index of the descriptor), the descriptor (\<open>None\<close> for
  \<^verbatim>\<open>NULL\<close>) and its private data.  The private data is reached through a pointer, so
  what a callback wrote stays written when a later step fails: every function of the parser
  returns its result (\<open>None\<close> or \<open>Inr\<close> for success) together with the private data
  as it is on return.

  The macros \<^verbatim>\<open>__entity_check_INTERFACE\<close>, \<^verbatim>\<open>__entity_check_STRING\<close>,
  \<^verbatim>\<open>__entity_check_ENDPOINT\<close> and \<^verbatim>\<open>__entity\<close> of \<^verbatim>\<open>ffs_do_single_desc\<close>:
\<close>

type_synonym 'p ffs_entity_callback =
  "ffs_entity_type \<Rightarrow> nat \<Rightarrow> u8 list option \<Rightarrow> 'p \<Rightarrow> errno option \<times> 'p"

fun entity_check :: "ffs_entity_type \<Rightarrow> u8 \<Rightarrow> bool" where
  "entity_check FFS_INTERFACE val = True"
| "entity_check FFS_STRING val = (val \<noteq> 0)"
| "entity_check FFS_ENDPOINT val = (val AND USB_ENDPOINT_NUMBER_MASK \<noteq> 0)"
| "entity_check FFS_DESCRIPTOR val = True"

definition entity_call ::
  "'p ffs_entity_callback \<Rightarrow> ffs_entity_type \<Rightarrow> u8 \<Rightarrow> u8 list \<Rightarrow> 'p \<Rightarrow> errno option \<times> 'p"
  where
  "entity_call entity type val ds priv =
     (if \<not> entity_check type val then (Some EINVAL, priv)
      else entity type (unat val) (Some ds) priv)"

text \<open>\<^verbatim>\<open>ffs_do_single_desc\<close>: returns the length of the descriptor at the head of \<open>data\<close>.\<close>

definition ffs_do_single_desc ::
  "u8 list \<Rightarrow> 'p ffs_entity_callback \<Rightarrow> 'p \<Rightarrow> (errno + nat) \<times> 'p" where
  "ffs_do_single_desc data entity priv =
     (if length data < 2 then (Inl EINVAL, priv)
      else let length' = unat (data ! 0); bDescriptorType = data ! 1 in
        if length data < length' then (Inl EINVAL, priv)
        else if bDescriptorType = USB_DT_DEVICE \<or> bDescriptorType = USB_DT_CONFIG \<or>
                bDescriptorType = USB_DT_STRING \<or> bDescriptorType = USB_DT_DEVICE_QUALIFIER
          then (Inl EINVAL, priv)
        else if bDescriptorType = USB_DT_INTERFACE then
          (if length' \<noteq> USB_DT_INTERFACE_SIZE then (Inl EINVAL, priv)
           else case entity_call entity FFS_INTERFACE (data ! 2) data priv of
               (Some e, priv1) \<Rightarrow> (Inl e, priv1)
             | (None, priv1) \<Rightarrow>
                 if data ! 8 \<noteq> 0 then
                   (case entity_call entity FFS_STRING (data ! 8) data priv1 of
                      (Some e, priv2) \<Rightarrow> (Inl e, priv2)
                    | (None, priv2) \<Rightarrow> (Inr length', priv2))
                 else (Inr length', priv1))
        else if bDescriptorType = USB_DT_ENDPOINT then
          (if length' \<noteq> USB_DT_ENDPOINT_SIZE \<and> length' \<noteq> USB_DT_ENDPOINT_AUDIO_SIZE
           then (Inl EINVAL, priv)
           else case entity_call entity FFS_ENDPOINT (data ! 2) data priv of
               (Some e, priv1) \<Rightarrow> (Inl e, priv1)
             | (None, priv1) \<Rightarrow> (Inr length', priv1))
        else if bDescriptorType = HID_DT_HID then
          (if length' \<noteq> sizeof_hid_descriptor then (Inl EINVAL, priv)
           else (Inr length', priv))
        else if bDescriptorType = USB_DT_OTG then
          (if length' \<noteq> sizeof_usb_otg_descriptor then (Inl EINVAL, priv)
           else (Inr length', priv))
        else if bDescriptorType = USB_DT_INTERFACE_ASSOCIATION then
          (if length' \<noteq> sizeof_usb_interface_assoc_descriptor then (Inl EINVAL, priv)
           else if data ! 7 \<noteq> 0 then
             (case entity_call entity FFS_STRING (data ! 7) data priv of
                (Some e, priv1) \<Rightarrow> (Inl e, priv1)
              | (None, priv1) \<Rightarrow> (Inr length', priv1))
           else (Inr length', priv))
        else if bDescriptorType = USB_DT_SS_ENDPOINT_COMP then
          (if length' \<noteq> sizeof_usb_ss_ep_comp_descriptor then (Inl EINVAL, priv)
           else (Inr length', priv))
        else if bDescriptorType = USB_DT_OTHER_SPEED_CONFIG \<or>
                bDescriptorType = USB_DT_INTERFACE_POWER \<or> bDescriptorType = USB_DT_DEBUG \<or>
                bDescriptorType = USB_DT_SECURITY \<or> bDescriptorType = USB_DT_CS_RADIO_CONTROL
          then (Inl EINVAL, priv)
        else (Inl EINVAL, priv))"

text \<open>
  \<^verbatim>\<open>ffs_do_descs\<close>.  The loop runs with \<open>num\<close> from 0 until \<^verbatim>\<open>num == count\<close>; the
  first argument of \<open>ffs_do_descs_from\<close> is \<open>count - num\<close>.  Its result is the rest of
  the data after the last descriptor; \<open>ffs_do_descs\<close> returns the number of bytes
  consumed, \<^verbatim>\<open>_len - len\<close>.
\<close>

fun ffs_do_descs_from ::
  "nat \<Rightarrow> nat \<Rightarrow> u8 list \<Rightarrow> 'p ffs_entity_callback \<Rightarrow> 'p \<Rightarrow> (errno + u8 list) \<times> 'p" where
  "ffs_do_descs_from 0 num data entity priv =
     (case entity FFS_DESCRIPTOR num None priv of
        (Some e, priv1) \<Rightarrow> (Inl e, priv1)
      | (None, priv1) \<Rightarrow> (Inr data, priv1))"
| "ffs_do_descs_from (Suc k) num data entity priv =
     (case entity FFS_DESCRIPTOR num (Some data) priv of
        (Some e, priv1) \<Rightarrow> (Inl e, priv1)
      | (None, priv1) \<Rightarrow>
          (case ffs_do_single_desc data entity priv1 of
             (Inl e, priv2) \<Rightarrow> (Inl e, priv2)
           | (Inr ret, priv2) \<Rightarrow> ffs_do_descs_from k (Suc num) (drop ret data) entity priv2))"

definition ffs_do_descs ::
  "nat \<Rightarrow> u8 list \<Rightarrow> 'p ffs_entity_callback \<Rightarrow> 'p \<Rightarrow> (errno + nat) \<times> 'p" where
  "ffs_do_descs count data entity priv =
     (case ffs_do_descs_from count 0 data entity priv of
        (Inl e, priv1) \<Rightarrow> (Inl e, priv1)
      | (Inr rest, priv1) \<Rightarrow> (Inr (length data - length rest), priv1))"

text \<open>
  \<^verbatim>\<open>__ffs_data_do_entity\<close>, the callback of the parse.  \<^verbatim>\<open>eps_addrmap\<close> has 15 slots and
  is indexed by \<^verbatim>\<open>helper->eps_count\<close>, which the check before keeps below 15.  The
  descriptor is never \<^verbatim>\<open>NULL\<close> for an endpoint entity.
\<close>

fun ffs_data_do_entity :: "ffs_desc_helper ffs_entity_callback" where
  "ffs_data_do_entity FFS_DESCRIPTOR val desc helper = (None, helper)"
| "ffs_data_do_entity FFS_INTERFACE val desc helper =
     (None, if val \<ge> unat (helper_interfaces_count helper)
            then helper\<lparr>helper_interfaces_count := of_nat (val + 1)\<rparr> else helper)"
| "ffs_data_do_entity FFS_STRING val desc helper =
     (None, if val > unat (strings_count (helper_ffs helper))
            then helper\<lparr>helper_ffs := (helper_ffs helper)\<lparr>strings_count := of_nat val\<rparr>\<rparr>
            else helper)"
| "ffs_data_do_entity FFS_ENDPOINT val desc helper =
     (let helper1 = helper\<lparr>helper_eps_count := helper_eps_count helper + 1\<rparr>;
          n = unat (helper_eps_count helper1);
          ffs = helper_ffs helper1;
          bEndpointAddress = the desc ! 2
      in if n \<ge> 15 then (Some EINVAL, helper1)
         else if eps_count ffs = 0 \<and> interfaces_count ffs = 0
           then (None, helper1\<lparr>helper_ffs :=
                         ffs\<lparr>eps_addrmap := (eps_addrmap ffs)[n := bEndpointAddress]\<rparr>\<rparr>)
         else if eps_addrmap ffs ! n \<noteq> bEndpointAddress then (Some EINVAL, helper1)
         else (None, helper1))"

text \<open>
  OS descriptors.  \<^verbatim>\<open>__ffs_do_os_desc_header\<close> selects the type of the feature
  descriptors that follow a header; the header is 11 bytes: \<^verbatim>\<open>interface\<close> (offset 0),
  \<^verbatim>\<open>dwLength\<close> (1), \<^verbatim>\<open>bcdVersion\<close> (5), \<^verbatim>\<open>wIndex\<close> (7), \<^verbatim>\<open>wCount\<close> (9) with
  \<^verbatim>\<open>Reserved\<close> its high byte (10).
\<close>

definition ffs_do_os_desc_header :: "u8 list \<Rightarrow> errno + (ffs_os_desc_type \<times> nat)" where
  "ffs_do_os_desc_header desc =
     (let bcd_version = get_unaligned_le16 (drop 5 desc);
          w_index = get_unaligned_le16 (drop 7 desc)
      in if bcd_version \<noteq> 1 then Inl EINVAL
         else if w_index = 4 then Inr (FFS_OS_DESC_EXT_COMPAT, sizeof_usb_os_desc_header)
         else if w_index = 5 then Inr (FFS_OS_DESC_EXT_PROP, sizeof_usb_os_desc_header)
         else Inl EINVAL)"

type_synonym 'p ffs_os_desc_callback =
  "ffs_os_desc_type \<Rightarrow> u8 list \<Rightarrow> u8 list \<Rightarrow> 'p \<Rightarrow> (errno + nat) \<times> 'p"

text \<open>\<^verbatim>\<open>ffs_do_single_os_desc\<close>: \<^verbatim>\<open>while (feature_count--)\<close>; the result is the rest of the data.\<close>

fun ffs_do_single_os_desc ::
  "u8 list \<Rightarrow> ffs_os_desc_type \<Rightarrow> nat \<Rightarrow> 'p ffs_os_desc_callback \<Rightarrow> 'p \<Rightarrow> u8 list \<Rightarrow>
   (errno + u8 list) \<times> 'p" where
  "ffs_do_single_os_desc data type 0 entity priv h = (Inr data, priv)"
| "ffs_do_single_os_desc data type (Suc feature_count) entity priv h =
     (case entity type h data priv of
        (Inl e, priv1) \<Rightarrow> (Inl e, priv1)
      | (Inr ret, priv1) \<Rightarrow>
          ffs_do_single_os_desc (drop ret data) type feature_count entity priv1 h)"

text \<open>\<^verbatim>\<open>ffs_do_os_descs\<close>: \<^verbatim>\<open>for (num = 0; num < count; ++num)\<close>, the first argument is \<open>count - num\<close>.\<close>

fun ffs_do_os_descs_from ::
  "nat \<Rightarrow> u8 list \<Rightarrow> 'p ffs_os_desc_callback \<Rightarrow> 'p \<Rightarrow> (errno + u8 list) \<times> 'p" where
  "ffs_do_os_descs_from 0 data entity priv = (Inr data, priv)"
| "ffs_do_os_descs_from (Suc k) data entity priv =
     (if length data < sizeof_usb_os_desc_header then (Inl EINVAL, priv)
      else if unat (get_unaligned_le32 (drop 1 data)) > length data then (Inl EINVAL, priv)
      else case ffs_do_os_desc_header data of
          Inl e \<Rightarrow> (Inl e, priv)
        | Inr (type, ret) \<Rightarrow>
            (let feature_count = get_unaligned_le16 (drop 9 data) in
             if type = FFS_OS_DESC_EXT_COMPAT \<and> (feature_count > 255 \<or> data ! 10 \<noteq> 0)
             then (Inl EINVAL, priv)
             else case ffs_do_single_os_desc (drop ret data) type (unat feature_count)
                         entity priv data of
                 (Inl e, priv1) \<Rightarrow> (Inl e, priv1)
               | (Inr rest, priv1) \<Rightarrow> ffs_do_os_descs_from k rest entity priv1))"

definition ffs_do_os_descs ::
  "nat \<Rightarrow> u8 list \<Rightarrow> 'p ffs_os_desc_callback \<Rightarrow> 'p \<Rightarrow> (errno + nat) \<times> 'p" where
  "ffs_do_os_descs count data entity priv =
     (case ffs_do_os_descs_from count data entity priv of
        (Inl e, priv1) \<Rightarrow> (Inl e, priv1)
      | (Inr rest, priv1) \<Rightarrow> (Inr (length data - length rest), priv1))"

text \<open>
  \<^verbatim>\<open>__ffs_data_do_os_desc\<close>.  An extended-compatibility record is 24 bytes with
  \<^verbatim>\<open>bFirstInterfaceNumber\<close> at offset 0, \<^verbatim>\<open>Reserved1\<close> at 1 and \<^verbatim>\<open>Reserved2[6]\<close> at 18.
  An extended-property record starts with \<^verbatim>\<open>dwSize\<close> (0), \<^verbatim>\<open>dwPropertyDataType\<close> (4)
  and \<^verbatim>\<open>wPropertyNameLength\<close> (8); the local \<^verbatim>\<open>length\<close> is a \<^verbatim>\<open>u8\<close>, so \<^verbatim>\<open>dwSize\<close>
  is truncated to its low byte, and \<^verbatim>\<open>14 + pnl + pdl\<close> is computed in 32 bits.
\<close>

fun ffs_data_do_os_desc :: "ffs_data ffs_os_desc_callback" where
  "ffs_data_do_os_desc FFS_OS_DESC_EXT_COMPAT h data ffs =
     (if length data < sizeof_usb_ext_compat_desc \<or>
         unat (data ! 0) \<ge> unat (interfaces_count ffs) \<or> data ! 1 \<noteq> 1
      then (Inl EINVAL, ffs)
      else if list_ex (\<lambda>i. data ! (18 + i) \<noteq> 0) [0 ..< 6] then (Inl EINVAL, ffs)
      else (Inr sizeof_usb_ext_compat_desc, ffs))"
| "ffs_data_do_os_desc FFS_OS_DESC_EXT_PROP h data ffs =
     (if length data < sizeof_usb_ext_prop_desc \<or>
         unat (h ! 0) \<ge> unat (interfaces_count ffs)
      then (Inl EINVAL, ffs)
      else let length' = (ucast (get_unaligned_le32 data) :: u8) in
        if length data < unat length' then (Inl EINVAL, ffs)
        else let type = get_unaligned_le32 (drop 4 data) in
          if type < USB_EXT_PROP_UNICODE \<or> type > USB_EXT_PROP_UNICODE_MULTI
          then (Inl EINVAL, ffs)
          else let pnl = get_unaligned_le16 (drop 8 data) in
            if unat length' < 14 + unat pnl then (Inl EINVAL, ffs)
            else let pdl = get_unaligned_le32 (drop (10 + unat pnl) data) in
              if (ucast length' :: u32) \<noteq> 14 + ucast pnl + pdl then (Inl EINVAL, ffs)
              else (Inr (unat length'),
                    ffs\<lparr>ms_os_descs_ext_prop_count := ms_os_descs_ext_prop_count ffs + 1,
                        ms_os_descs_ext_prop_name_len :=
                          ms_os_descs_ext_prop_name_len ffs + ucast pnl * 2,
                        ms_os_descs_ext_prop_data_len :=
                          ms_os_descs_ext_prop_data_len ffs + pdl\<rparr>))"
| "ffs_data_do_os_desc FFS_OS_DESC h data ffs = (Inl EINVAL, ffs)"

section \<open>Accepting the descriptor blob and the string blob\<close>

text \<open>
  \<^verbatim>\<open>__ffs_data_got_descs\<close>.  \<open>read_count\<close> is one round of the loop that reads
  \<^verbatim>\<open>fs_count\<close>, \<^verbatim>\<open>hs_count\<close>, \<^verbatim>\<open>ss_count\<close> (\<open>i\<close> = 0, 1, 2) and the read of
  \<^verbatim>\<open>os_descs_count\<close> that follows it (\<open>i\<close> = 3): the count is 0 when bit \<open>i\<close> of the
  flags is clear, \<open>None\<close> is the \<^verbatim>\<open>goto error\<close> on \<^verbatim>\<open>len < 4\<close>.
\<close>

definition read_count :: "u32 \<Rightarrow> nat \<Rightarrow> u8 list \<Rightarrow> (u32 \<times> u8 list) option" where
  "read_count flags i data =
     (if flags AND push_bit i 1 = 0 then Some (0, data)
      else if length data < 4 then None
      else Some (get_unaligned_le32 data, drop 4 data))"

text \<open>
  The loop \<^verbatim>\<open>for (i = 0; i < 3; ++i)\<close> under \<^verbatim>\<open>/* Read descriptors */\<close>, over the list
  of the counts still to do.  The result is the data after the tiers walked.
\<close>

fun read_descriptors :: "u32 list \<Rightarrow> ffs_data \<Rightarrow> u8 list \<Rightarrow> (errno + u8 list) \<times> ffs_data" where
  "read_descriptors [] ffs data = (Inr data, ffs)"
| "read_descriptors (c # counts) ffs data =
     (if c = 0 then read_descriptors counts ffs data
      else case ffs_do_descs (unat c) data ffs_data_do_entity
                  \<lparr>helper_ffs = ffs, helper_interfaces_count = 0, helper_eps_count = 0\<rparr> of
          (Inl e, helper) \<Rightarrow> (Inl e, helper_ffs helper)
        | (Inr ret, helper) \<Rightarrow>
            (let ffs1 = helper_ffs helper in
             if eps_count ffs1 = 0 \<and> interfaces_count ffs1 = 0 then
               read_descriptors counts
                 (ffs1\<lparr>eps_count := ucast (helper_eps_count helper),
                       interfaces_count := ucast (helper_interfaces_count helper)\<rparr>)
                 (drop ret data)
             else if ucast (eps_count ffs1) \<noteq> helper_eps_count helper then (Inl EINVAL, ffs1)
             else if ucast (interfaces_count ffs1) \<noteq> helper_interfaces_count helper
               then (Inl EINVAL, ffs1)
             else read_descriptors counts ffs1 (drop ret data)))"

text \<open>
  The part of \<^verbatim>\<open>__ffs_data_got_descs\<close> after the \<^verbatim>\<open>switch\<close> on the magic, in the
  order of the code: the eventfd field (\<open>got_descs_eventfd\<close>), the counts
  (\<open>got_descs_counts\<close>), then the descriptors, the OS descriptors and the final check
  (\<open>got_descs_body\<close>).  \<open>blob\<close> is \<^verbatim>\<open>_data\<close>, \<open>data\<close> the bytes after the header.
  \<^verbatim>\<open>eventfd_ctx_fdget\<close> belongs to the kernel; it is a parameter that maps the
  descriptor number to an error or a context.
\<close>

definition got_descs_eventfd ::
  "(u32 \<Rightarrow> errno + nat) \<Rightarrow> ffs_data \<Rightarrow> u32 \<Rightarrow> u8 list \<Rightarrow>
   (errno \<times> ffs_data) + (ffs_data \<times> u8 list)" where
  "got_descs_eventfd eventfd_ctx_fdget ffs flags data =
     (if flags AND FUNCTIONFS_EVENTFD \<noteq> 0 then
        (if length data < 4 then Inl (EINVAL, ffs)
         else case eventfd_ctx_fdget (get_unaligned_le32 data) of
             Inl e \<Rightarrow> Inl (e, ffs\<lparr>ffs_eventfd := None\<rparr>)
           | Inr ctx \<Rightarrow> Inr (ffs\<lparr>ffs_eventfd := Some ctx\<rparr>, drop 4 data))
      else Inr (ffs, data))"

definition got_descs_counts ::
  "u32 \<Rightarrow> u8 list \<Rightarrow> (u32 \<times> u32 \<times> u32 \<times> u32 \<times> u8 list) option" where
  "got_descs_counts flags data =
     (case read_count flags 0 data of None \<Rightarrow> None | Some (c0, data1) \<Rightarrow>
     (case read_count flags 1 data1 of None \<Rightarrow> None | Some (c1, data2) \<Rightarrow>
     (case read_count flags 2 data2 of None \<Rightarrow> None | Some (c2, data3) \<Rightarrow>
     (case read_count flags 3 data3 of None \<Rightarrow> None
      | Some (os_descs_count, raw) \<Rightarrow> Some (c0, c1, c2, os_descs_count, raw)))))"

definition got_descs_body ::
  "(u32 \<Rightarrow> errno + nat) \<Rightarrow> ffs_data \<Rightarrow> u8 list \<Rightarrow> u32 \<Rightarrow> u8 list \<Rightarrow> errno option \<times> ffs_data"
  where
  "got_descs_body eventfd_ctx_fdget ffs blob flags data =
     (case got_descs_eventfd eventfd_ctx_fdget ffs flags data of
        Inl (e, ffs1) \<Rightarrow> (Some e, ffs1)
      | Inr (ffs1, data1) \<Rightarrow>
     (case got_descs_counts flags data1 of
        None \<Rightarrow> (Some EINVAL, ffs1)
      | Some (c0, c1, c2, os_descs_count, raw) \<Rightarrow>
     (case read_descriptors [c0, c1, c2] ffs1 raw of
        (Inl e, ffs2) \<Rightarrow> (Some e, ffs2)
      | (Inr data5, ffs2) \<Rightarrow>
     (case (if os_descs_count \<noteq> 0
            then ffs_do_os_descs (unat os_descs_count) data5 ffs_data_do_os_desc ffs2
            else (Inr 0, ffs2)) of
        (Inl e, ffs3) \<Rightarrow> (Some e, ffs3)
      | (Inr ret, ffs3) \<Rightarrow>
          (let data6 = drop ret data5 in
           if length data6 = length raw \<or> data6 \<noteq> [] then (Some EINVAL, ffs3)
           else (None, ffs3\<lparr>raw_descs_data := Some blob, raw_descs := raw,
                            raw_descs_length := length raw - length data6,
                            fs_descs_count := c0, hs_descs_count := c1,
                            ss_descs_count := c2,
                            ms_os_descs_count := os_descs_count\<rparr>))))))"

definition ffs_data_got_descs ::
  "(u32 \<Rightarrow> errno + nat) \<Rightarrow> ffs_data \<Rightarrow> u8 list \<Rightarrow> errno option \<times> ffs_data" where
  "ffs_data_got_descs eventfd_ctx_fdget ffs blob =
     (if unat (get_unaligned_le32 (drop 4 blob)) \<noteq> length blob then (Some EINVAL, ffs)
      else if get_unaligned_le32 blob = FUNCTIONFS_DESCRIPTORS_MAGIC then
        got_descs_body eventfd_ctx_fdget ffs blob
          (FUNCTIONFS_HAS_FS_DESC OR FUNCTIONFS_HAS_HS_DESC) (drop 8 blob)
      else if get_unaligned_le32 blob = FUNCTIONFS_DESCRIPTORS_MAGIC_V2 then
        (let flags = get_unaligned_le32 (drop 8 blob);
             ffs1 = ffs\<lparr>user_flags := flags\<rparr>
         in if flags AND NOT (FUNCTIONFS_HAS_FS_DESC OR FUNCTIONFS_HAS_HS_DESC OR
                              FUNCTIONFS_HAS_SS_DESC OR FUNCTIONFS_HAS_MS_OS_DESC OR
                              FUNCTIONFS_VIRTUAL_ADDR OR FUNCTIONFS_EVENTFD) \<noteq> 0
            then (Some ENOSYS, ffs1)
            else got_descs_body eventfd_ctx_fdget ffs1 blob flags (drop 12 blob))
      else (Some EINVAL, ffs))"

text \<open>
  \<^verbatim>\<open>__ffs_data_got_strings\<close>.  The inner loop \<^verbatim>\<open>do { ... } while (--str_count)\<close>
  decrements the 32-bit \<^verbatim>\<open>str_count\<close> itself; \<^verbatim>\<open>strnlen(data, len)\<close> is the length of
  the bytes before the first zero byte.  The strings kept for a language are the first
  \<open>needed\<close> ones.  \<open>None\<close> is \<^verbatim>\<open>goto error_free\<close>.
\<close>

function got_strings_strs ::
  "u8 list \<Rightarrow> u32 \<Rightarrow> nat \<Rightarrow> u8 list list \<Rightarrow> (u8 list \<times> u32 \<times> u8 list list) option" where
  "got_strings_strs data str_count needed strs =
     (let length' = length (takeWhile (\<lambda>b. b \<noteq> 0) data) in
      if length' = length data then None
      else let strs' = (if needed \<noteq> 0 then strs @ [take length' data] else strs);
               needed' = (if needed \<noteq> 0 then needed - 1 else needed);
               data' = drop (length' + 1) data;
               str_count' = str_count - 1
           in if str_count' \<noteq> 0 then got_strings_strs data' str_count' needed' strs'
              else Some (data', str_count', strs'))"
  by pat_completeness auto
termination
proof (relation "measure (\<lambda>(data, str_count, needed, strs). length data)", goal_cases)
  case 1
  show ?case by simp
next
  case (2 data str_count needed strs)
  have "length (takeWhile (\<lambda>b. b \<noteq> 0) data) \<le> length data"
    by (rule length_takeWhile_le)
  with 2 show ?case by simp
qed

declare got_strings_strs.simps [simp del]

text \<open>
  The outer loop \<^verbatim>\<open>do { ... } while (--lang_count)\<close>, entered with \<^verbatim>\<open>lang_count > 0\<close>;
  the first argument is the number of rounds after this one.
\<close>

fun got_strings_langs ::
  "nat \<Rightarrow> u8 list \<Rightarrow> u32 \<Rightarrow> nat \<Rightarrow> (u16 \<times> u8 list list) list \<Rightarrow>
   (u8 list \<times> (u16 \<times> u8 list list) list) option" where
  "got_strings_langs k data str_count needed_count tabs =
     (if length data < 3 then None
      else case got_strings_strs (drop 2 data) str_count needed_count [] of
          None \<Rightarrow> None
        | Some (data', str_count', strs) \<Rightarrow>
            (case k of
               0 \<Rightarrow> Some (data', tabs @ [(get_unaligned_le16 data, strs)])
             | Suc k' \<Rightarrow>
                 got_strings_langs k' data' str_count' needed_count
                   (tabs @ [(get_unaligned_le16 data, strs)])))"

definition ffs_data_got_strings ::
  "bool \<Rightarrow> ffs_data \<Rightarrow> u8 list \<Rightarrow> errno option \<times> ffs_data" where
  "ffs_data_got_strings kmalloc_fails ffs blob =
     (if length blob < 16 \<or> get_unaligned_le32 blob \<noteq> FUNCTIONFS_STRINGS_MAGIC \<or>
         unat (get_unaligned_le32 (drop 4 blob)) \<noteq> length blob
      then (Some EINVAL, ffs)
      else let str_count = get_unaligned_le32 (drop 8 blob);
               lang_count = get_unaligned_le32 (drop 12 blob);
               needed_count = (ucast (strings_count ffs) :: u32)
           in if (str_count = 0) \<noteq> (lang_count = 0) then (Some EINVAL, ffs)
              else if str_count < needed_count then (Some EINVAL, ffs)
              else if needed_count = 0 then (None, ffs)
              else if kmalloc_fails then (Some ENOMEM, ffs)
              else case got_strings_langs (unat lang_count - 1) (drop 16 blob) str_count
                          (unat needed_count) [] of
                  None \<Rightarrow> (Some EINVAL, ffs)
                | Some (rest, tabs) \<Rightarrow>
                    if rest \<noteq> [] then (Some EINVAL, ffs)
                    else (None, ffs\<lparr>stringtabs := Some tabs, raw_strings := Some blob\<rparr>))"

section \<open>Control file (ep0)\<close>

text \<open>
  One call of \<^verbatim>\<open>ffs_ep0_read\<close> or \<^verbatim>\<open>ffs_ep0_write\<close> meets the rest of the kernel at a
  few places; what happens there is given by an environment:
  the result of \<^verbatim>\<open>ffs_inst_exist_check\<close> and of \<^verbatim>\<open>ffs_mutex_lock\<close> (\<open>None\<close> is 0),
  \<^verbatim>\<open>O_NONBLOCK\<close>, the failure of the buffer allocation or of the copy from user space,
  what the transport delivers while the queue lock is not held (before the lock is first
  taken, while the buffer is prepared, and while the transfer is awaited), the
  deliveries that end a blocking wait for events (\<open>None\<close>: a signal),
  the result of \<^verbatim>\<open>usb_ep_queue\<close>, the completion of the transfer (\<open>None\<close>: the wait was
  interrupted; otherwise \<^verbatim>\<open>req->status\<close> and \<^verbatim>\<open>req->actual\<close>), the content of the
  buffer after the transfer, and the failure of the copy to user space.
\<close>

text \<open>
  What the transport delivers to the event queue.  A control request comes through
  \<^verbatim>\<open>ffs_func_setup\<close>, which under the queue lock stores the packet in
  \<^verbatim>\<open>ffs->ev.setup\<close>, replaces its \<^verbatim>\<open>wIndex\<close> by the reverse-mapped interface or endpoint
  number, and then calls \<^verbatim>\<open>__ffs_event_add(ffs, FUNCTIONFS_SETUP)\<close>; it does nothing
  unless the session is active.  The other events come through \<^verbatim>\<open>ffs_event_add\<close> from
  the bind, unbind, set-alt, disable, suspend and resume hooks.
\<close>

datatype transport_event =
    TE_SETUP usb_ctrlrequest u16
  | TE_BIND | TE_UNBIND | TE_ENABLE | TE_DISABLE | TE_SUSPEND | TE_RESUME

fun ffs_deliver :: "ffs_data \<Rightarrow> transport_event \<Rightarrow> ffs_data option" where
  "ffs_deliver ffs (TE_SETUP creq index) =
     (if state ffs \<noteq> FFS_ACTIVE then Some ffs
      else ffs_event_add (ffs\<lparr>ev_setup := creq\<lparr>wIndex := index\<rparr>\<rparr>) FUNCTIONFS_SETUP)"
| "ffs_deliver ffs TE_BIND = ffs_event_add ffs FUNCTIONFS_BIND"
| "ffs_deliver ffs TE_UNBIND = ffs_event_add ffs FUNCTIONFS_UNBIND"
| "ffs_deliver ffs TE_ENABLE = ffs_event_add ffs FUNCTIONFS_ENABLE"
| "ffs_deliver ffs TE_DISABLE = ffs_event_add ffs FUNCTIONFS_DISABLE"
| "ffs_deliver ffs TE_SUSPEND = ffs_event_add ffs FUNCTIONFS_SUSPEND"
| "ffs_deliver ffs TE_RESUME = ffs_event_add ffs FUNCTIONFS_RESUME"

fun ffs_deliver_all :: "ffs_data \<Rightarrow> transport_event list \<Rightarrow> ffs_data option" where
  "ffs_deliver_all ffs [] = Some ffs"
| "ffs_deliver_all ffs (t # ts) =
     (case ffs_deliver ffs t of None \<Rightarrow> None | Some ffs' \<Rightarrow> ffs_deliver_all ffs' ts)"

record ep0_env =
  env_inst_exist_check :: "errno option"
  env_mutex_lock :: "errno option"
  env_nonblock :: bool
  env_buffer :: "errno option"
  env_raced_unlocked :: "transport_event list"
  env_raced_buffer :: "transport_event list"
  env_raced_wait :: "transport_event list"
  env_wait_events :: "(transport_event \<times> transport_event list) option"
  env_usb_ep_queue :: "errno option"
  env_completion :: "(errno option \<times> nat) option"
  env_rx :: "u8 list"
  env_copy_to_user_fails :: bool
  env_eventfd_ctx_fdget :: "u32 \<Rightarrow> errno + nat"
  env_kmalloc_fails :: bool
  env_epfiles_create :: "errno option"
  env_ready :: "errno option"

datatype ep0_action = EP0_SET_HALT | EP0_QUEUE nat bool | EP0_DEQUEUE

datatype ep0_out = NoOutput | OutEvents "usb_functionfs_event list" | OutData "u8 list"

text \<open>
  The result of a call: the return value (\<open>Inl\<close> a negative errno, \<open>Inr\<close> a byte
  count), the session afterwards, what was asked of the transport on endpoint zero, and
  what was copied to the caller.
\<close>

type_synonym ep0_result = "(errno + nat) \<times> ffs_data \<times> ep0_action list \<times> ep0_out"

definition sizeof_usb_functionfs_event :: nat where "sizeof_usb_functionfs_event = 12"

text \<open>\<^verbatim>\<open>__ffs_ep0_stall\<close>\<close>

definition ffs_ep0_stall :: "ffs_data \<Rightarrow> ep0_result" where
  "ffs_ep0_stall ffs =
     (if ev_can_stall ffs
      then (Inl EL2HLT, ffs\<lparr>setup_state := FFS_NO_SETUP\<rparr>, [EP0_SET_HALT], NoOutput)
      else (Inl ESRCH, ffs, [], NoOutput))"

text \<open>
  \<^verbatim>\<open>__ffs_ep0_queue_wait\<close>: entered with the queue lock held and releases it.  \<open>None\<close>
  is an overflow of the event array by a delivery that arrives during the wait.
\<close>

definition ffs_ep0_queue_wait :: "ep0_env \<Rightarrow> ffs_data \<Rightarrow> nat \<Rightarrow> ep0_result option" where
  "ffs_ep0_queue_wait env ffs len =
     (let zero = (len < unat (wLength (ev_setup ffs))) in
      case env_usb_ep_queue env of
        Some e \<Rightarrow> Some (Inl e, ffs, [EP0_QUEUE len zero], NoOutput)
      | None \<Rightarrow>
          (case ffs_deliver_all ffs (env_raced_wait env) of
             None \<Rightarrow> None
           | Some ffs1 \<Rightarrow>
               (case env_completion env of
                  None \<Rightarrow> Some (Inl EINTR, ffs1, [EP0_QUEUE len zero, EP0_DEQUEUE], NoOutput)
                | Some (status, actual) \<Rightarrow>
                    Some (case status of Some e \<Rightarrow> Inl e | None \<Rightarrow> Inr actual,
                          ffs1\<lparr>setup_state := FFS_NO_SETUP\<rparr>,
                          [EP0_QUEUE len zero], NoOutput))))"

text \<open>
  \<^verbatim>\<open>ffs_ep0_read\<close>, in three parts: the branch \<^verbatim>\<open>case FFS_NO_SETUP\<close> (a read of
  events), the branch \<^verbatim>\<open>case FFS_SETUP_PENDING\<close> (the data stage of the pending setup
  packet), and the function itself.
\<close>

definition ep0_read_no_setup :: "ep0_env \<Rightarrow> ffs_data \<Rightarrow> nat \<Rightarrow> ep0_result option" where
  "ep0_read_no_setup env ffs len =
     (let n = len div sizeof_usb_functionfs_event in
      if n = 0 then Some (Inl EINVAL, ffs, [], NoOutput)
      else if env_nonblock env \<and> ev_count ffs = 0 then Some (Inl EAGAIN, ffs, [], NoOutput)
      else
        (case (if ev_count ffs \<noteq> 0 then Some (Inr ffs)
               else (case env_wait_events env of
                       None \<Rightarrow> Some (Inl EINTR)
                     | Some (t, ts) \<Rightarrow> map_option Inr (ffs_deliver_all ffs (t # ts)))) of
           None \<Rightarrow> None
         | Some (Inl e) \<Rightarrow> Some (Inl e, ffs, [], NoOutput)
         | Some (Inr ffs1) \<Rightarrow>
             (case ffs_ep0_read_events ffs1 (min n (ev_count ffs1)) of
                None \<Rightarrow> None
              | Some (ffs2, events) \<Rightarrow>
                  (if env_copy_to_user_fails env then Some (Inl EFAULT, ffs2, [], NoOutput)
                   else Some (Inr (min n (ev_count ffs1) * sizeof_usb_functionfs_event),
                              ffs2, [], OutEvents events)))))"

definition ep0_read_setup_pending :: "ep0_env \<Rightarrow> ffs_data \<Rightarrow> nat \<Rightarrow> ep0_result option" where
  "ep0_read_setup_pending env ffs len =
     (if bRequestType (ev_setup ffs) AND USB_DIR_IN \<noteq> 0 then Some (ffs_ep0_stall ffs)
      else
        (let len' = min len (unat (wLength (ev_setup ffs))) in
         if len' \<noteq> 0 \<and> env_buffer env \<noteq> None then Some (Inl ENOMEM, ffs, [], NoOutput)
         else
           (case ffs_deliver_all ffs (env_raced_buffer env) of
              None \<Rightarrow> None
            | Some ffs1 \<Rightarrow>
                (case ffs_setup_state_clear_cancelled ffs1 of
                   (s, ffs2) \<Rightarrow>
                     (if s = FFS_SETUP_CANCELLED then Some (Inl EIDRM, ffs2, [], NoOutput)
                      else
                        (case ffs_ep0_queue_wait env ffs2 len' of
                           None \<Rightarrow> None
                         | Some (Inl e, ffs3, acts, out) \<Rightarrow> Some (Inl e, ffs3, acts, NoOutput)
                         | Some (Inr r, ffs3, acts, out) \<Rightarrow>
                             (if r > 0 \<and> env_copy_to_user_fails env
                              then Some (Inl EFAULT, ffs3, acts, NoOutput)
                              else if r > 0
                                then Some (Inr r, ffs3, acts, OutData (take len' (env_rx env)))
                              else Some (Inr r, ffs3, acts, NoOutput))))))))"

definition ffs_ep0_read :: "ep0_env \<Rightarrow> ffs_data \<Rightarrow> nat \<Rightarrow> ep0_result option" where
  "ffs_ep0_read env ffs len =
     (case env_inst_exist_check env of
        Some e \<Rightarrow> Some (Inl e, ffs, [], NoOutput)
      | None \<Rightarrow>
          (case ffs_setup_state_clear_cancelled ffs of
             (s0, ffs0) \<Rightarrow>
               (if s0 = FFS_SETUP_CANCELLED then Some (Inl EIDRM, ffs0, [], NoOutput)
                else
                  (case env_mutex_lock env of
                     Some e \<Rightarrow> Some (Inl e, ffs0, [], NoOutput)
                   | None \<Rightarrow>
                       (if state ffs0 \<noteq> FFS_ACTIVE then Some (Inl EBADFD, ffs0, [], NoOutput)
                        else
                          (case ffs_deliver_all ffs0 (env_raced_unlocked env) of
                             None \<Rightarrow> None
                           | Some ffs1 \<Rightarrow>
                               (case ffs_setup_state_clear_cancelled ffs1 of
                                  (FFS_SETUP_CANCELLED, ffs2) \<Rightarrow>
                                    Some (Inl EIDRM, ffs2, [], NoOutput)
                                | (FFS_NO_SETUP, ffs2) \<Rightarrow> ep0_read_no_setup env ffs2 len
                                | (FFS_SETUP_PENDING, ffs2) \<Rightarrow>
                                    ep0_read_setup_pending env ffs2 len)))))))"

text \<open>
  \<^verbatim>\<open>ffs_ep0_write\<close>; \<open>buf\<close> is the caller's data, \<^verbatim>\<open>len\<close> its length.  The parts
  are the branch of the two collecting states, the branch \<^verbatim>\<open>case FFS_ACTIVE\<close>, and the
  function itself.  \<^verbatim>\<open>ffs_epfiles_create\<close> and \<^verbatim>\<open>ffs_ready\<close> build the endpoint files
  and register the function; their results come from the environment.  Events reach the
  queue only once the function is registered, that is in state \<^verbatim>\<open>FFS_ACTIVE\<close>.
\<close>

definition ep0_write_collecting :: "ep0_env \<Rightarrow> ffs_data \<Rightarrow> u8 list \<Rightarrow> ep0_result" where
  "ep0_write_collecting env ffs buf =
     (if length buf < 16 then (Inl EINVAL, ffs, [], NoOutput)
      else
        (case env_buffer env of
           Some e \<Rightarrow> (Inl e, ffs, [], NoOutput)
         | None \<Rightarrow>
             (if state ffs = FFS_READ_DESCRIPTORS then
                (case ffs_data_got_descs (env_eventfd_ctx_fdget env) ffs buf of
                   (Some e, ffs1) \<Rightarrow> (Inl e, ffs1, [], NoOutput)
                 | (None, ffs1) \<Rightarrow>
                     (Inr (length buf), ffs1\<lparr>state := FFS_READ_STRINGS\<rparr>, [], NoOutput))
              else
                (case ffs_data_got_strings (env_kmalloc_fails env) ffs buf of
                   (Some e, ffs1) \<Rightarrow> (Inl e, ffs1, [], NoOutput)
                 | (None, ffs1) \<Rightarrow>
                     (case env_epfiles_create env of
                        Some e \<Rightarrow> (Inl e, ffs1\<lparr>state := FFS_CLOSING\<rparr>, [], NoOutput)
                      | None \<Rightarrow>
                          (case env_ready env of
                             Some e \<Rightarrow> (Inl e, ffs1\<lparr>state := FFS_CLOSING\<rparr>, [], NoOutput)
                           | None \<Rightarrow>
                               (Inr (length buf), ffs1\<lparr>state := FFS_ACTIVE\<rparr>, [],
                                NoOutput)))))))"

definition ep0_write_active :: "ep0_env \<Rightarrow> ffs_data \<Rightarrow> u8 list \<Rightarrow> ep0_result option" where
  "ep0_write_active env ffs buf =
     (case ffs_deliver_all ffs (env_raced_unlocked env) of
        None \<Rightarrow> None
      | Some ffs1 \<Rightarrow>
          (case ffs_setup_state_clear_cancelled ffs1 of
             (FFS_SETUP_CANCELLED, ffs2) \<Rightarrow> Some (Inl EIDRM, ffs2, [], NoOutput)
           | (FFS_NO_SETUP, ffs2) \<Rightarrow> Some (Inl ESRCH, ffs2, [], NoOutput)
           | (FFS_SETUP_PENDING, ffs2) \<Rightarrow>
               (if bRequestType (ev_setup ffs2) AND USB_DIR_IN = 0
                then Some (ffs_ep0_stall ffs2)
                else
                  (let len' = min (length buf) (unat (wLength (ev_setup ffs2))) in
                   case (if len' = 0 then None else env_buffer env) of
                     Some e \<Rightarrow> Some (Inl e, ffs2, [], NoOutput)
                   | None \<Rightarrow>
                       (case ffs_deliver_all ffs2 (env_raced_buffer env) of
                          None \<Rightarrow> None
                        | Some ffs3 \<Rightarrow>
                            (case ffs_setup_state_clear_cancelled ffs3 of
                               (s, ffs4) \<Rightarrow>
                                 (if s = FFS_SETUP_CANCELLED
                                  then Some (Inl EIDRM, ffs4, [], NoOutput)
                                  else ffs_ep0_queue_wait env ffs4 len')))))))"

definition ffs_ep0_write :: "ep0_env \<Rightarrow> ffs_data \<Rightarrow> u8 list \<Rightarrow> ep0_result option" where
  "ffs_ep0_write env ffs buf =
     (case env_inst_exist_check env of
        Some e \<Rightarrow> Some (Inl e, ffs, [], NoOutput)
      | None \<Rightarrow>
          (case ffs_setup_state_clear_cancelled ffs of
             (s0, ffs0) \<Rightarrow>
               (if s0 = FFS_SETUP_CANCELLED then Some (Inl EIDRM, ffs0, [], NoOutput)
                else
                  (case env_mutex_lock env of
                     Some e \<Rightarrow> Some (Inl e, ffs0, [], NoOutput)
                   | None \<Rightarrow>
                       (if state ffs0 = FFS_READ_DESCRIPTORS \<or> state ffs0 = FFS_READ_STRINGS
                        then Some (ep0_write_collecting env ffs0 buf)
                        else if state ffs0 = FFS_ACTIVE then ep0_write_active env ffs0 buf
                        else Some (Inl EBADFD, ffs0, [], NoOutput))))))"

section \<open>Endpoint files\<close>

text \<open>
  The state that \<^verbatim>\<open>ffs_epfile_io\<close> reads and writes: of the endpoint file its error
  flag, its endpoint (\<open>None\<close> for \<^verbatim>\<open>NULL\<close>: not enabled), the direction and type of
  the endpoint; the lifecycle state of the session; of the endpoint the busy flag; and
  the global \<^verbatim>\<open>first_read_done\<close>.  Only the file of the call is modelled, so the loop
  that clears the error flag of every file before a retry clears this one.
\<close>

record ffs_epfile =
  epfile_error :: bool
  epfile_ep :: "nat option"
  epfile_in :: bool
  epfile_isoc :: bool
  epfile_ffs_state :: ffs_state
  ep_is_busy :: bool
  first_read_done :: bool
  quirk_ep_out_aligned_size :: bool
  ep_maxpacket :: nat

text \<open>\<^verbatim>\<open>struct ffs_io_data\<close>: \<open>io_count\<close> is \<^verbatim>\<open>iov_iter_count(&io_data->data)\<close>.\<close>

record ffs_io_data =
  io_aio :: bool
  io_read :: bool
  io_count :: nat

text \<open>
  Modelled from the spec: \<^verbatim>\<open>usb_ep_align_maybe\<close> is declared in \<^verbatim>\<open>linux/usb/gadget.h\<close>,
  outside the source file.  The buffer of a read is "sized to the caller's requested
  length, rounded up to the transport's required alignment": up to a multiple of the
  endpoint's maximum packet size when the controller requires it.
\<close>

definition usb_ep_align_maybe :: "ffs_epfile \<Rightarrow> nat \<Rightarrow> nat" where
  "usb_ep_align_maybe epfile len =
     (if quirk_ep_out_aligned_size epfile \<and> ep_maxpacket epfile \<noteq> 0
      then ((len + ep_maxpacket epfile - 1) div ep_maxpacket epfile) * ep_maxpacket epfile
      else len)"

text \<open>
  What one pass through \<^verbatim>\<open>ffs_epfile_io\<close> (from the label \<^verbatim>\<open>retry\<close>) meets outside
  the function:
  whether the endpoint is torn down between the check of the error flag at \<^verbatim>\<open>retry\<close>
  and the check before the wait for the endpoint; what happens while the caller sleeps in
  that wait, in order; whether \<^verbatim>\<open>epfile->ep\<close> has changed
  when it is compared again under \<^verbatim>\<open>eps_lock\<close> (before the allocation, after the mutex
  is taken, after the completion); failures of \<^verbatim>\<open>kmalloc\<close>, of the copy from the caller,
  of \<^verbatim>\<open>ffs_mutex_lock\<close>, of \<^verbatim>\<open>usb_ep_alloc_request\<close>; whether \<^verbatim>\<open>ep->ep\<close> is
  \<^verbatim>\<open>NULL\<close>; the result of \<^verbatim>\<open>usb_ep_queue\<close>; whether the wait for the completion is
  interrupted; \<^verbatim>\<open>ep->status\<close> as the completion callback leaves it (an error or the
  number of bytes transferred); whether the copy to the caller faults.
\<close>

text \<open>
  The caller sleeps in \<^verbatim>\<open>wait_event_interruptible(epfile->wait, (ep = epfile->ep))\<close>.
  While it sleeps the endpoint may be torn down (\<^verbatim>\<open>ffs_func_eps_disable\<close> and
  \<^verbatim>\<open>ffs_epfile_release\<close> set the error flag and leave \<^verbatim>\<open>epfile->ep\<close> \<^verbatim>\<open>NULL\<close>; neither
  wakes the wait queue), a signal may arrive, or the endpoints may be enabled
  (\<^verbatim>\<open>ffs_func_eps_enable\<close> sets \<^verbatim>\<open>epfile->ep\<close>, \<^verbatim>\<open>epfile->in\<close> and \<^verbatim>\<open>epfile->isoc\<close>
  and wakes the wait queue; it does not touch the error flag).  The wait ends when its
  condition holds or a signal is pending, and with nothing else.
\<close>

datatype wait_event = WAIT_TORN_DOWN | WAIT_SIGNAL | WAIT_ENABLED nat bool bool

datatype wait_end = STILL_WAITING | INTERRUPTED | GOT_EP nat

fun epfile_wait :: "ffs_epfile \<Rightarrow> wait_event list \<Rightarrow> wait_end \<times> ffs_epfile" where
  "epfile_wait epfile [] = (STILL_WAITING, epfile)"
| "epfile_wait epfile (WAIT_TORN_DOWN # es) = epfile_wait (epfile\<lparr>epfile_error := True\<rparr>) es"
| "epfile_wait epfile (WAIT_SIGNAL # es) = (INTERRUPTED, epfile)"
| "epfile_wait epfile (WAIT_ENABLED ep is_in is_isoc # es) =
     (GOT_EP ep, epfile\<lparr>epfile_ep := Some ep, epfile_in := is_in, epfile_isoc := is_isoc\<rparr>)"

record io_env =
  ioe_error_recheck :: bool
  ioe_wait :: "wait_event list"
  ioe_ep_changed_alloc :: bool
  ioe_kmalloc_fails :: bool
  ioe_copy_from_iter_short :: bool
  ioe_mutex_lock :: "errno option"
  ioe_ep_changed_lock :: bool
  ioe_ep_ep_null :: bool
  ioe_alloc_request_fails :: bool
  ioe_usb_ep_queue :: "errno option"
  ioe_wait_interrupted :: bool
  ioe_ep_changed_done :: bool
  ioe_status :: "errno + nat"
  ioe_copy_to_iter_faults :: bool

datatype io_action = IO_WAIT_EP | IO_SET_HALT | IO_QUEUE nat | IO_DEQUEUE | IO_COPY_TO_ITER nat

text \<open>
  How a call stands when the environment is used up: it has returned (\<open>Done\<close>), it has
  returned \<^verbatim>\<open>-EIOCBQUEUED\<close> (\<open>Queued\<close>), it is about to go back to \<^verbatim>\<open>retry\<close>
  (\<open>Retry\<close>), or it is still asleep in the wait for the endpoint (\<open>Blocked\<close>).
\<close>

datatype io_outcome =
    Done "errno + nat" ffs_epfile "io_action list"
  | Queued ffs_epfile "io_action list"
  | Retry ffs_epfile "io_action list"
  | Blocked ffs_epfile "io_action list"

text \<open>
  The block \<^verbatim>\<open>if (!ep) { ... }\<close>: the call ends there (\<open>Inl\<close>), or goes on with the
  endpoint file as it is once the endpoint is there (\<open>Inr\<close>).
\<close>

definition epfile_io_wait_ep ::
  "bool \<Rightarrow> ffs_io_data \<Rightarrow> ffs_epfile \<Rightarrow> io_env \<Rightarrow>
   io_outcome + (ffs_epfile \<times> io_action list)" where
  "epfile_io_wait_ep nonblock io_data epfile env =
     (case epfile_ep epfile of
        Some ep \<Rightarrow> Inr (epfile, [])
      | None \<Rightarrow>
          (if nonblock then Inl (Done (Inl EAGAIN) epfile [])
           else if \<not> io_read io_data then Inl (Done (Inl EINTR) epfile [])
           else if \<not> ioe_error_recheck env then
             (case epfile_wait epfile (ioe_wait env) of
                (STILL_WAITING, epfile') \<Rightarrow> Inl (Blocked epfile' [IO_WAIT_EP])
              | (INTERRUPTED, epfile') \<Rightarrow> Inl (Done (Inl ERESTARTSYS) epfile' [IO_WAIT_EP])
              | (GOT_EP ep, epfile') \<Rightarrow> Inr (epfile', [IO_WAIT_EP]))
           else Inl (Done (Inl ENODEV) (epfile\<lparr>epfile_error := True\<rparr>) [])))"

text \<open>
  The synchronous branch after the mutex is taken (\<^verbatim>\<open>else { struct completion *done;
  ... }\<close>); \<open>data_len\<close> is the size of the buffer allocated.
\<close>

definition epfile_io_sync ::
  "ffs_io_data \<Rightarrow> ffs_epfile \<Rightarrow> io_env \<Rightarrow> nat \<Rightarrow> io_action list \<Rightarrow> io_outcome" where
  "epfile_io_sync io_data epfile env data_len acts =
     (let queue = \<not> (io_read io_data \<and> ep_is_busy epfile);
          epfile1 = (if queue then epfile\<lparr>ep_is_busy := True\<rparr> else epfile);
          acts1 = (if queue then acts @ [IO_QUEUE data_len] else acts)
      in if queue \<and> ioe_usb_ep_queue env \<noteq> None
         then Done (Inl EIO) (epfile1\<lparr>ep_is_busy := False\<rparr>) acts1
         else if ioe_wait_interrupted env
         then Done (Inl EINTR) epfile1
                (if ioe_ep_changed_done env then acts1 else acts1 @ [IO_DEQUEUE])
         else
           (let epfile2 = epfile1\<lparr>ep_is_busy := False\<rparr>;
                ret = (if ioe_ep_changed_done env then Inl ENODEV else ioe_status env);
                epfile3 = (if \<not> ioe_ep_changed_done env \<and> \<not> isl (ioe_status env)
                           then epfile2\<lparr>first_read_done := True\<rparr> else epfile2)
            in if io_read io_data \<and> \<not> first_read_done epfile3 \<and> isl ret
               then Retry (epfile3\<lparr>epfile_error := False\<rparr>) acts1
               else
                 (case ret of
                    Inl e \<Rightarrow> Done (Inl e) epfile3 acts1
                  | Inr n \<Rightarrow>
                      (if io_read io_data \<and> n > 0 then
                         (if n > data_len then Done (Inl EOVERFLOW) epfile3 acts1
                          else
                            (let copied = (if ioe_copy_to_iter_faults env then 0
                                           else min n (io_count io_data))
                             in if copied = 0
                                then Done (Inl EFAULT) epfile3 (acts1 @ [IO_COPY_TO_ITER 0])
                                else Done (Inr copied) epfile3
                                       (acts1 @ [IO_COPY_TO_ITER copied])))
                       else Done (Inr n) epfile3 acts1))))"

text \<open>
  The rest of a pass, from \<^verbatim>\<open>/* Do we halt? */\<close>, with the endpoint there.  The sanity
  check \<^verbatim>\<open>data_len == -EINVAL\<close> is left out: on the path that reaches it
  \<^verbatim>\<open>data_len\<close> is a byte count.  When \<^verbatim>\<open>usb_ep_alloc_request\<close> fails the function
  returns \<^verbatim>\<open>ret\<close> as the mutex left it, 0.
\<close>

definition epfile_io_transfer ::
  "ffs_io_data \<Rightarrow> ffs_epfile \<Rightarrow> io_env \<Rightarrow> io_action list \<Rightarrow> io_outcome" where
  "epfile_io_transfer io_data epfile env acts =
     (let halt = (io_read io_data = epfile_in epfile);
          data_len = (if io_read io_data
                      then usb_ep_align_maybe epfile (io_count io_data)
                      else io_count io_data)
      in if halt \<and> epfile_isoc epfile then Done (Inl EINVAL) epfile acts
         else if \<not> halt \<and> ioe_ep_changed_alloc env then Done (Inl ESHUTDOWN) epfile acts
         else if \<not> halt \<and> ioe_kmalloc_fails env then Done (Inl ENOMEM) epfile acts
         else if \<not> halt \<and> \<not> io_read io_data \<and> ioe_copy_from_iter_short env
           then Done (Inl EFAULT) epfile acts
         else
           (case ioe_mutex_lock env of
              Some e \<Rightarrow> Done (Inl e) epfile acts
            | None \<Rightarrow>
                (if ioe_ep_changed_lock env then Done (Inl ESHUTDOWN) epfile acts
                 else if halt then
                   Done (Inl EBADMSG) epfile
                     (if ioe_ep_ep_null env then acts else acts @ [IO_SET_HALT])
                 else if io_aio io_data then
                   (if ioe_alloc_request_fails env then Done (Inr 0) epfile acts
                    else
                      (case ioe_usb_ep_queue env of
                         Some e \<Rightarrow> Done (Inl e) epfile (acts @ [IO_QUEUE data_len])
                       | None \<Rightarrow> Queued epfile (acts @ [IO_QUEUE data_len])))
                 else epfile_io_sync io_data epfile env data_len acts)))"

text \<open>One pass from the label \<^verbatim>\<open>retry\<close>.\<close>

definition epfile_io_pass ::
  "bool \<Rightarrow> ffs_io_data \<Rightarrow> ffs_epfile \<Rightarrow> io_env \<Rightarrow> io_outcome" where
  "epfile_io_pass nonblock io_data epfile env =
     (if epfile_error epfile then Done (Inl ENODEV) epfile []
      else if epfile_ffs_state epfile \<noteq> FFS_ACTIVE then Done (Inl ENODEV) epfile []
      else
        (case epfile_io_wait_ep nonblock io_data epfile env of
           Inl outcome \<Rightarrow> outcome
         | Inr (epfile', acts) \<Rightarrow> epfile_io_transfer io_data epfile' env acts))"

text \<open>
  \<^verbatim>\<open>ffs_epfile_io\<close>: the passes, one element of the list of environments each; a call
  that goes back to \<^verbatim>\<open>retry\<close> when the list is used up has not returned (\<open>None\<close>).
\<close>

fun epfile_io_retry ::
  "bool \<Rightarrow> ffs_io_data \<Rightarrow> ffs_epfile \<Rightarrow> io_env list \<Rightarrow> io_action list \<Rightarrow> io_outcome option"
  where
  "epfile_io_retry nonblock io_data epfile [] acts0 = None"
| "epfile_io_retry nonblock io_data epfile (env # envs) acts0 =
     (case epfile_io_pass nonblock io_data epfile env of
        Done ret epfile' acts \<Rightarrow> Some (Done ret epfile' (acts0 @ acts))
      | Queued epfile' acts \<Rightarrow> Some (Queued epfile' (acts0 @ acts))
      | Retry epfile' acts \<Rightarrow> epfile_io_retry nonblock io_data epfile' envs (acts0 @ acts)
      | Blocked epfile' acts \<Rightarrow> Some (Blocked epfile' (acts0 @ acts)))"

definition ffs_epfile_io ::
  "errno option \<Rightarrow> bool \<Rightarrow> ffs_io_data \<Rightarrow> ffs_epfile \<Rightarrow> io_env list \<Rightarrow> io_outcome option"
  where
  "ffs_epfile_io inst_exist_check nonblock io_data epfile envs =
     (case inst_exist_check of
        Some e \<Rightarrow> Some (Done (Inl e) epfile [])
      | None \<Rightarrow> epfile_io_retry nonblock io_data epfile envs [])"

text \<open>Environments in which nothing fails and nothing happens concurrently.\<close>

definition ep0_env_quiet :: ep0_env where
  "ep0_env_quiet =
     \<lparr>env_inst_exist_check = None, env_mutex_lock = None, env_nonblock = False,
      env_buffer = None, env_raced_unlocked = [], env_raced_buffer = [],
      env_raced_wait = [], env_wait_events = None, env_usb_ep_queue = None,
      env_completion = Some (None, 8), env_rx = [1, 2, 3, 4, 5, 6, 7, 8],
      env_copy_to_user_fails = False, env_eventfd_ctx_fdget = (\<lambda>fd. Inr (unat fd)),
      env_kmalloc_fails = False, env_epfiles_create = None, env_ready = None\<rparr>"

definition io_env_quiet :: "errno + nat \<Rightarrow> io_env" where
  "io_env_quiet status =
     \<lparr>ioe_error_recheck = False, ioe_wait = [], ioe_ep_changed_alloc = False,
      ioe_kmalloc_fails = False, ioe_copy_from_iter_short = False, ioe_mutex_lock = None,
      ioe_ep_changed_lock = False, ioe_ep_ep_null = False, ioe_alloc_request_fails = False,
      ioe_usb_ep_queue = None, ioe_wait_interrupted = False, ioe_ep_changed_done = False,
      ioe_status = status, ioe_copy_to_iter_faults = False\<rparr>"

text \<open>An enabled bulk endpoint file of an active session, and a session with a setup pending.\<close>

definition epfile_bulk :: "bool \<Rightarrow> ffs_epfile" where
  "epfile_bulk is_in =
     \<lparr>epfile_error = False, epfile_ep = Some 1, epfile_in = is_in, epfile_isoc = False,
      epfile_ffs_state = FFS_ACTIVE, ep_is_busy = False, first_read_done = False,
      quirk_ep_out_aligned_size = True, ep_maxpacket = 512\<rparr>"

definition ffs_setup_pending :: "u8 \<Rightarrow> ffs_data" where
  "ffs_setup_pending request_type =
     ffs_data_new\<lparr>state := FFS_ACTIVE, setup_state := FFS_SETUP_PENDING,
                  ev_setup := zero_ctrlrequest\<lparr>bRequestType := request_type, wLength := 8\<rparr>\<rparr>"

section \<open>Vocabulary for the properties of the parser\<close>

text \<open>
  The number of endpoint descriptors among the first \<open>k\<close> descriptors at the head of
  \<open>data\<close>, found by the layout alone: each descriptor begins with its length and its
  type tag.
\<close>

fun n_endpoint_descs :: "nat \<Rightarrow> u8 list \<Rightarrow> nat" where
  "n_endpoint_descs 0 data = 0"
| "n_endpoint_descs (Suc k) data =
     (if length data < 2 then 0
      else (if data ! 1 = USB_DT_ENDPOINT then 1 else 0) +
           n_endpoint_descs k (drop (unat (data ! 0)) data))"

text \<open>
  The size in bytes of the first \<open>k\<close> descriptors at the head of \<open>data\<close>, and the
  numbers of endpoint descriptors of the tiers that \<^verbatim>\<open>__ffs_data_got_descs\<close> walks
  (those with a count other than zero), each tier beginning where the one before ends.
\<close>

fun descs_size :: "nat \<Rightarrow> u8 list \<Rightarrow> nat" where
  "descs_size 0 data = 0"
| "descs_size (Suc k) data =
     (if length data < 2 then 0
      else unat (data ! 0) + descs_size k (drop (unat (data ! 0)) data))"

fun tier_endpoint_counts :: "u32 list \<Rightarrow> u8 list \<Rightarrow> nat list" where
  "tier_endpoint_counts [] data = []"
| "tier_endpoint_counts (c # counts) data =
     (if c = 0 then tier_endpoint_counts counts data
      else n_endpoint_descs (unat c) data #
           tier_endpoint_counts counts (drop (descs_size (unat c) data) data))"

text \<open>
  The interface count and the endpoint count that the walk of one tier computes, as
  \<^verbatim>\<open>__ffs_data_got_descs\<close> calls it; \<open>None\<close> when the walk fails.
\<close>

definition tier_counts :: "ffs_data \<Rightarrow> nat \<Rightarrow> u8 list \<Rightarrow> (u32 \<times> u32) option" where
  "tier_counts ffs count data =
     (case ffs_do_descs count data ffs_data_do_entity
             \<lparr>helper_ffs = ffs, helper_interfaces_count = 0, helper_eps_count = 0\<rparr> of
        (Inl e, helper) \<Rightarrow> None
      | (Inr ret, helper) \<Rightarrow>
          Some (helper_interfaces_count helper, helper_eps_count helper))"

text \<open>
  \<open>kept_outside_parser ffs ffs'\<close>: the two sessions agree on every field except those
  that the walk of a descriptor blob accumulates (user flags, eventfd, address map, the
  string, interface and endpoint counts, the extended-property counters).
\<close>

definition kept_outside_parser :: "ffs_data \<Rightarrow> ffs_data \<Rightarrow> bool" where
  "kept_outside_parser ffs ffs' =
     (state ffs' = state ffs \<and> setup_state ffs' = setup_state ffs \<and>
      ev_types ffs' = ev_types ffs \<and> ev_count ffs' = ev_count ffs \<and>
      ev_can_stall ffs' = ev_can_stall ffs \<and> ev_setup ffs' = ev_setup ffs \<and>
      raw_descs_data ffs' = raw_descs_data ffs \<and> raw_descs ffs' = raw_descs ffs \<and>
      raw_descs_length ffs' = raw_descs_length ffs \<and>
      fs_descs_count ffs' = fs_descs_count ffs \<and> hs_descs_count ffs' = hs_descs_count ffs \<and>
      ss_descs_count ffs' = ss_descs_count ffs \<and>
      ms_os_descs_count ffs' = ms_os_descs_count ffs \<and>
      raw_strings ffs' = raw_strings ffs \<and> stringtabs ffs' = stringtabs ffs)"

text \<open>
  Descriptor blobs in the legacy format (magic, total length, \<^verbatim>\<open>fs_count\<close>,
  \<^verbatim>\<open>hs_count\<close>, descriptors).  \<open>blob_otg_then_interface\<close>: the full-speed tier is one
  OTG descriptor, the high-speed tier one interface descriptor.
  \<open>blob_endpoint_then_interface\<close>: the full-speed tier is one bulk-IN endpoint
  descriptor, the high-speed tier one interface descriptor.
\<close>

definition otg_desc :: "u8 list" where
  "otg_desc = [3, 9, 0]"

definition interface_desc :: "u8 list" where
  "interface_desc = [9, 4, 0, 0, 0, 255, 0, 0, 0]"

definition endpoint_desc :: "u8 list" where
  "endpoint_desc = [7, 5, 0x81, 2, 0, 2, 0]"

definition blob_otg_then_interface :: "u8 list" where
  "blob_otg_then_interface =
     [1, 0, 0, 0, 28, 0, 0, 0, 1, 0, 0, 0, 1, 0, 0, 0] @ otg_desc @ interface_desc"

definition blob_endpoint_then_interface :: "u8 list" where
  "blob_endpoint_then_interface =
     [1, 0, 0, 0, 32, 0, 0, 0, 1, 0, 0, 0, 1, 0, 0, 0] @ endpoint_desc @ interface_desc"

text \<open>
  A 16-byte blob whose magic is none of the known tags, and a tier of fifteen endpoint
  descriptors.
\<close>

definition blob_invalid_magic :: "u8 list" where
  "blob_invalid_magic = [0xff, 0, 0, 0, 16, 0, 0, 0, 0, 0, 0, 0, 0, 0, 0, 0]"

definition fifteen_endpoints :: "u8 list" where
  "fifteen_endpoints = concat (replicate 15 endpoint_desc)"

section \<open>Properties of the event queue\<close>

lemma purge_events_take:
  "ev + n \<le> length types \<Longrightarrow> out \<le> ev \<Longrightarrow>
   \<exists>types'. purge_events types ev out n r1 r2 neg =
       Some (types', out + length (filter (\<lambda>e. (e = r1 \<or> e = r2) = neg) (take n (drop ev types))))
     \<and> length types' = length types
     \<and> take (out + length (filter (\<lambda>e. (e = r1 \<or> e = r2) = neg) (take n (drop ev types)))) types'
         = take out types @ filter (\<lambda>e. (e = r1 \<or> e = r2) = neg) (take n (drop ev types))"
proof (induction n arbitrary: types ev out)
  case 0
  then show ?case by simp
next
  case (Suc n)
  let ?P = "\<lambda>e. (e = r1 \<or> e = r2) = neg"
  from Suc.prems have ev: "ev < length types" and out: "out < length types" by auto
  have hd: "take (Suc n) (drop ev types) = types ! ev # take n (drop (Suc ev) types)"
    using ev by (simp add: Cons_nth_drop_Suc [symmetric])
  show ?case
  proof (cases "?P (types ! ev)")
    case True
    let ?ts = "types[out := types ! ev]"
    have len: "Suc ev + n \<le> length ?ts" and le: "Suc out \<le> Suc ev"
      using Suc.prems by auto
    have dr: "drop (Suc ev) ?ts = drop (Suc ev) types"
      using Suc.prems by simp
    have tk: "take (Suc out) ?ts = take out types @ [types ! ev]"
      using out by (simp add: take_Suc_conv_app_nth)
    from Suc.IH [OF len le] obtain types' where
      r: "purge_events ?ts (Suc ev) (Suc out) n r1 r2 neg =
            Some (types', Suc out + length (filter ?P (take n (drop (Suc ev) ?ts))))"
      and l: "length types' = length ?ts"
      and t: "take (Suc out + length (filter ?P (take n (drop (Suc ev) ?ts)))) types'
                = take (Suc out) ?ts @ filter ?P (take n (drop (Suc ev) ?ts))"
      by blast
    show ?thesis
      using True ev out r l t by (simp add: hd dr tk)
  next
    case False
    have len: "Suc ev + n \<le> length types" and le: "out \<le> Suc ev"
      using Suc.prems by auto
    from Suc.IH [OF len le] show ?thesis
      using False ev out by (simp add: hd)
  qed
qed


lemma category_lt4: "category e < 4"
  by (cases e) simp_all

lemma distinct_category_length: "distinct (map category xs) \<Longrightarrow> length xs \<le> 4"
proof -
  assume d: "distinct (map category xs)"
  have "set (map category xs) \<subseteq> {..<4}"
    using category_lt4 by auto
  then have "card (set (map category xs)) \<le> card {..<(4::nat)}"
    by (intro card_mono) simp_all
  moreover from d have "card (set (map category xs)) = length (map category xs)"
    by (rule distinct_card)
  ultimately show ?thesis by simp
qed

lemma kept_category: "kept type e \<Longrightarrow> category e \<noteq> category type"
  by (cases type; cases e) (simp_all add: kept_def)

lemma distinct_category_add:
  "distinct (map category q) \<Longrightarrow> distinct (map category (filter (kept type) q @ [type]))"
  by (auto simp: distinct_map_filter dest: kept_category)

lemma event_add_queue:
  assumes len: "length (ev_types ffs) = 4" and cnt: "ev_count ffs \<le> 4"
    and room: "length (filter (kept type) (queue ffs)) < 4"
  shows "\<exists>ffs'. ffs_event_add ffs type = Some ffs' \<and>
           queue ffs' = filter (kept type) (queue ffs) @ [type] \<and>
           length (ev_types ffs') = 4 \<and>
           ev_count ffs' = Suc (length (filter (kept type) (queue ffs))) \<and>
           setup_state ffs' = (if setup_state ffs = FFS_SETUP_PENDING then FFS_SETUP_CANCELLED
                               else setup_state ffs)"
proof -
  obtain r1 r2 neg where rt: "rem_types type = (r1, r2, neg)"
    by (cases "rem_types type") auto
  let ?P = "\<lambda>e. (e = r1 \<or> e = r2) = neg"
  have k: "kept type = ?P" by (auto simp: kept_def rt)
  let ?q = "take (ev_count ffs) (ev_types ffs)"
  let ?m = "length (filter ?P ?q)"
  have "0 + ev_count ffs \<le> length (ev_types ffs)" using len cnt by simp
  from purge_events_take [OF this, of 0 r1 r2 neg] obtain types' where
    r: "purge_events (ev_types ffs) 0 0 (ev_count ffs) r1 r2 neg = Some (types', ?m)"
    and l: "length types' = 4" and t: "take ?m types' = filter ?P ?q"
    using len by auto
  have m: "?m < 4" using room by (simp add: k queue_def)
  have "take (Suc ?m) (types'[?m := type]) = filter ?P ?q @ [type]"
    using m l t by (simp add: take_Suc_conv_app_nth)
  then show ?thesis
    using r l m by (simp add: ffs_event_add_def rt queue_def k Let_def)
qed

lemma ev_inv_event_add:
  assumes "ev_inv ffs"
  shows "\<exists>ffs'. ffs_event_add ffs type = Some ffs' \<and> ev_inv ffs' \<and>
           queue ffs' = filter (kept type) (queue ffs) @ [type]"
proof -
  from assms have len: "length (ev_types ffs) = 4" and cnt: "ev_count ffs \<le> 4"
    and d: "distinct (map category (queue ffs))"
    by (simp_all add: ev_inv_def)
  have d': "distinct (map category (filter (kept type) (queue ffs) @ [type]))"
    using d by (rule distinct_category_add)
  then have "length (filter (kept type) (queue ffs) @ [type]) \<le> 4"
    by (rule distinct_category_length)
  then have room: "length (filter (kept type) (queue ffs)) < 4" by simp
  from event_add_queue [OF len cnt room] obtain ffs' where
    "ffs_event_add ffs type = Some ffs'"
    "queue ffs' = filter (kept type) (queue ffs) @ [type]"
    "length (ev_types ffs') = 4"
    "ev_count ffs' = Suc (length (filter (kept type) (queue ffs)))"
    by blast
  with d' room show ?thesis
    by (auto simp: ev_inv_def)
qed


lemma read_events_loop_Some:
  "i < n \<Longrightarrow> n \<le> length (ev_types ffs) \<Longrightarrow> length events = length (ev_types ffs) \<Longrightarrow>
   \<exists>ffs' events'. read_events_loop ffs i n events = Some (ffs', events') \<and>
      ev_types ffs' = ev_types ffs \<and> ev_count ffs' = ev_count ffs"
proof (induction ffs i n events rule: read_events_loop.induct)
  case (1 ffs i n events)
  define t where "t = ev_types ffs ! i"
  define e where "e = (if t = FUNCTIONFS_SETUP
                  then \<lparr>event_type = t, event_setup = ev_setup ffs\<rparr>
                  else (events ! i)\<lparr>event_type := t\<rparr>)"
  define ffs1 where "ffs1 = (if t = FUNCTIONFS_SETUP
                     then ffs\<lparr>setup_state := FFS_SETUP_PENDING\<rparr> else ffs)"
  have same: "ev_types ffs1 = ev_types ffs" "ev_count ffs1 = ev_count ffs"
    by (simp_all add: ffs1_def)
  have rng: "i < length (ev_types ffs) \<and> i < length events"
    using "1.prems" by simp
  have unfold: "read_events_loop ffs i n events =
      (if Suc i < n then read_events_loop ffs1 (Suc i) n (events[i := e])
       else Some (ffs1, events[i := e]))"
    using rng by (subst read_events_loop.simps) (simp add: Let_def t_def e_def ffs1_def)
  show ?case
  proof (cases "Suc i < n")
    case True
    have "\<exists>ffs' events'. read_events_loop ffs1 (Suc i) n (events[i := e]) = Some (ffs', events') \<and>
            ev_types ffs' = ev_types ffs1 \<and> ev_count ffs' = ev_count ffs1"
      using "1.prems" same
      by (intro "1.IH" [OF rng t_def e_def ffs1_def True]) (simp_all add: True)
    then show ?thesis
      using True by (simp add: unfold same)
  next
    case False
    then show ?thesis
      by (simp add: unfold same)
  qed
qed

lemma ev_inv_read_events:
  assumes inv: "ev_inv ffs" and n: "0 < n" "n \<le> ev_count ffs"
  shows "\<exists>ffs' events. ffs_ep0_read_events ffs n = Some (ffs', events) \<and> ev_inv ffs' \<and>
           queue ffs' = drop n (queue ffs)"
proof -
  from inv have len: "length (ev_types ffs) = 4" and cnt: "ev_count ffs \<le> 4"
    and d: "distinct (map category (queue ffs))"
    by (simp_all add: ev_inv_def)
  have "n \<le> length (ev_types ffs)" using n cnt len by simp
  from read_events_loop_Some [OF n(1) this, of "replicate 4 \<lparr>event_type = FUNCTIONFS_BIND, event_setup = zero_ctrlrequest\<rparr>"]
  obtain ffs1 events1 where
    r: "read_events_loop ffs 0 n (replicate 4 \<lparr>event_type = FUNCTIONFS_BIND, event_setup = zero_ctrlrequest\<rparr>) = Some (ffs1, events1)"
    and t: "ev_types ffs1 = ev_types ffs" and c: "ev_count ffs1 = ev_count ffs"
    using len by auto
  have q: "take (ev_count ffs - n) (take (ev_count ffs - n) (drop n (ev_types ffs)) @ drop (ev_count ffs - n) (ev_types ffs))
           = drop n (take (ev_count ffs) (ev_types ffs))"
    using n cnt len by (simp add: drop_take)
  have "distinct (map category (drop n (queue ffs)))"
    using d by (simp add: drop_map [symmetric])
  then show ?thesis
    using r t c n cnt len q
    by (simp add: ffs_ep0_read_events_def Let_def ev_inv_def queue_def)
qed


lemma ev_inv_new: "ev_inv ffs_data_new"
  by (simp add: ev_inv_def ffs_data_new_def queue_def)

lemma ev_inv_step:
  assumes "ev_inv ffs"
  shows "\<exists>ffs'. ev_step ffs op = Some ffs' \<and> ev_inv ffs'"
proof (cases op)
  case (Enqueue type)
  with ev_inv_event_add [OF assms, of type] show ?thesis by auto
next
  case (Consume n)
  show ?thesis
  proof (cases "n = 0 \<or> ev_count ffs = 0")
    case True
    with assms Consume show ?thesis by simp
  next
    case False
    then have "0 < min n (ev_count ffs)" "min n (ev_count ffs) \<le> ev_count ffs" by simp_all
    from ev_inv_read_events [OF assms this] False Consume show ?thesis by auto
  qed
qed

lemma ev_inv_run:
  "ev_inv ffs \<Longrightarrow> \<exists>ffs'. ev_run ffs ops = Some ffs' \<and> ev_inv ffs'"
proof (induction ops arbitrary: ffs)
  case Nil
  then show ?case by simp
next
  case (Cons op ops)
  from ev_inv_step [OF Cons.prems, of op] obtain ffs1 where
    s: "ev_step ffs op = Some ffs1" and i: "ev_inv ffs1" by blast
  from Cons.IH [OF i] s show ?case by simp
qed

text \<open>
  C4.  From a fresh session, every sequence of enqueues of the seven event types,
  interleaved in any way with event reads, runs without an access outside the four-slot
  array, and leaves at most four events queued.
\<close>

theorem event_queue_never_exceeds_four:
  "\<exists>ffs. ev_run ffs_data_new ops = Some ffs \<and> ev_count ffs \<le> 4 \<and>
         length (queue ffs) \<le> 4 \<and> length (ev_types ffs) = 4"
proof -
  from ev_inv_run [OF ev_inv_new, of ops] obtain ffs where
    "ev_run ffs_data_new ops = Some ffs" "ev_inv ffs" by blast
  then show ?thesis by (auto simp: ev_inv_def queue_def)
qed

text \<open>
  C3, as the code has it.  In every reachable state of the queue an enqueue succeeds and
  the new queue is the old one without the superseded events, in their old order,
  followed by the new event: \<open>Resume\<close> supersedes every queued \<open>Suspend\<close> and
  \<open>Resume\<close>; \<open>Suspend\<close> and \<open>Setup\<close> supersede the queued events of their own type;
  \<open>Bind\<close>, \<open>Unbind\<close>, \<open>Disable\<close> and \<open>Enable\<close> supersede every queued event that is
  not \<open>Suspend\<close> or \<open>Resume\<close>.
\<close>

theorem event_add_supersedes:
  assumes "ev_run ffs_data_new ops = Some ffs"
  shows "\<exists>ffs'. ffs_event_add ffs type = Some ffs' \<and>
           queue ffs' =
             filter (\<lambda>e. if type = FUNCTIONFS_RESUME
                            then e \<noteq> FUNCTIONFS_SUSPEND \<and> e \<noteq> FUNCTIONFS_RESUME
                          else if type = FUNCTIONFS_SUSPEND \<or> type = FUNCTIONFS_SETUP
                            then e \<noteq> type
                          else e = FUNCTIONFS_SUSPEND \<or> e = FUNCTIONFS_RESUME)
                    (queue ffs) @ [type]"
proof -
  from ev_inv_run [OF ev_inv_new, of ops] assms have "ev_inv ffs" by simp
  from ev_inv_event_add [OF this, of type] obtain ffs' where
    a: "ffs_event_add ffs type = Some ffs'"
    and q: "queue ffs' = filter (kept type) (queue ffs) @ [type]" by blast
  have "kept type = (\<lambda>e. if type = FUNCTIONFS_RESUME
                            then e \<noteq> FUNCTIONFS_SUSPEND \<and> e \<noteq> FUNCTIONFS_RESUME
                          else if type = FUNCTIONFS_SUSPEND \<or> type = FUNCTIONFS_SETUP
                            then e \<noteq> type
                          else e = FUNCTIONFS_SUSPEND \<or> e = FUNCTIONFS_RESUME)"
    by (cases type) (auto simp: kept_def fun_eq_iff)
  with a q show ?thesis by simp
qed

theorem event_add_supersedes_witness:
  "ev_run ffs_data_new [Enqueue FUNCTIONFS_SETUP, Enqueue FUNCTIONFS_SUSPEND] =
     Some (ffs_data_new\<lparr>ev_types := [FUNCTIONFS_SETUP, FUNCTIONFS_SUSPEND,
                                      FUNCTIONFS_BIND, FUNCTIONFS_BIND],
                         ev_count := 2\<rparr>) \<and>
   map_option queue
     (ffs_event_add (ffs_data_new\<lparr>ev_types := [FUNCTIONFS_SETUP, FUNCTIONFS_SUSPEND,
                                               FUNCTIONFS_BIND, FUNCTIONFS_BIND],
                                  ev_count := 2\<rparr>) FUNCTIONFS_RESUME) =
     Some [FUNCTIONFS_SETUP, FUNCTIONFS_RESUME]"
proof -
  have r: "ev_run ffs_data_new [Enqueue FUNCTIONFS_SETUP, Enqueue FUNCTIONFS_SUSPEND] =
     Some (ffs_data_new\<lparr>ev_types := [FUNCTIONFS_SETUP, FUNCTIONFS_SUSPEND,
                                      FUNCTIONFS_BIND, FUNCTIONFS_BIND],
                         ev_count := 2\<rparr>)"
    by (simp add: ffs_event_add_def ffs_data_new_def numeral_2_eq_2)
  from event_add_supersedes [OF r, of FUNCTIONFS_RESUME] r show ?thesis
    by (auto simp: queue_def ffs_data_new_def)
qed

text \<open>
  C3 as the specification words it fails: a queued \<open>Suspend\<close> survives the enqueue of
  \<open>Bind\<close>.
\<close>

theorem bind_keeps_queued_suspend:
  "map_option queue
     (ev_run ffs_data_new [Enqueue FUNCTIONFS_SUSPEND, Enqueue FUNCTIONFS_BIND]) =
   Some [FUNCTIONFS_SUSPEND, FUNCTIONFS_BIND]"
  by (simp add: ffs_event_add_def ffs_data_new_def queue_def numeral_2_eq_2)


section \<open>Properties of the control file\<close>

lemma event_add_setup_state:
  "ffs_event_add ffs type = Some ffs' \<Longrightarrow>
   setup_state ffs' = (if setup_state ffs = FFS_SETUP_PENDING then FFS_SETUP_CANCELLED
                       else setup_state ffs)"
  by (auto simp: ffs_event_add_def Let_def split: option.splits prod.splits if_splits)

text \<open>
  C2.  When a setup packet is pending and an event is enqueued, the setup sub-state becomes
  cancelled, and the next read and the next write on the control file of a live instance
  fail with \<^verbatim>\<open>EIDRM\<close>: nothing is asked of the transport, nothing is copied to the
  caller, and the sub-state is back to no-setup.
\<close>

theorem pending_setup_cancelled_by_enqueue:
  assumes "setup_state ffs = FFS_SETUP_PENDING"
    and "ffs_event_add ffs type = Some ffs'"
    and "env_inst_exist_check env = None"
  shows "setup_state ffs' = FFS_SETUP_CANCELLED \<and>
         ffs_ep0_read env ffs' len =
           Some (Inl EIDRM, ffs'\<lparr>setup_state := FFS_NO_SETUP\<rparr>, [], NoOutput) \<and>
         ffs_ep0_write env ffs' buf =
           Some (Inl EIDRM, ffs'\<lparr>setup_state := FFS_NO_SETUP\<rparr>, [], NoOutput)"
proof -
  from event_add_setup_state [OF assms(2)] assms(1)
  have c: "setup_state ffs' = FFS_SETUP_CANCELLED" by simp
  then show ?thesis
    using assms(3)
    by (simp add: ffs_ep0_read_def ffs_ep0_write_def ffs_setup_state_clear_cancelled_def)
qed

theorem pending_setup_cancelled_by_enqueue_witness:
  "setup_state (ffs_setup_pending 0) = FFS_SETUP_PENDING \<and>
   ffs_event_add (ffs_setup_pending 0) FUNCTIONFS_SUSPEND =
     Some (ffs_setup_pending 0\<lparr>setup_state := FFS_SETUP_CANCELLED,
        ev_types := [FUNCTIONFS_SUSPEND, FUNCTIONFS_BIND, FUNCTIONFS_BIND, FUNCTIONFS_BIND],
        ev_count := 1\<rparr>) \<and>
   ffs_ep0_read ep0_env_quiet
     (ffs_setup_pending 0\<lparr>setup_state := FFS_SETUP_CANCELLED,
        ev_types := [FUNCTIONFS_SUSPEND, FUNCTIONFS_BIND, FUNCTIONFS_BIND, FUNCTIONFS_BIND],
        ev_count := 1\<rparr>) 8 =
   Some (Inl EIDRM,
         ffs_setup_pending 0\<lparr>setup_state := FFS_NO_SETUP,
           ev_types := [FUNCTIONFS_SUSPEND, FUNCTIONFS_BIND, FUNCTIONFS_BIND, FUNCTIONFS_BIND],
           ev_count := 1\<rparr>, [], NoOutput) \<and>
   ffs_ep0_write ep0_env_quiet
     (ffs_setup_pending 0\<lparr>setup_state := FFS_SETUP_CANCELLED,
        ev_types := [FUNCTIONFS_SUSPEND, FUNCTIONFS_BIND, FUNCTIONFS_BIND, FUNCTIONFS_BIND],
        ev_count := 1\<rparr>) [1, 2, 3] =
   Some (Inl EIDRM,
         ffs_setup_pending 0\<lparr>setup_state := FFS_NO_SETUP,
           ev_types := [FUNCTIONFS_SUSPEND, FUNCTIONFS_BIND, FUNCTIONFS_BIND, FUNCTIONFS_BIND],
           ev_count := 1\<rparr>, [], NoOutput)"
proof -
  have a: "setup_state (ffs_setup_pending 0) = FFS_SETUP_PENDING"
    by (simp add: ffs_setup_pending_def)
  have b: "ffs_event_add (ffs_setup_pending 0) FUNCTIONFS_SUSPEND =
            Some (ffs_setup_pending 0\<lparr>setup_state := FFS_SETUP_CANCELLED,
        ev_types := [FUNCTIONFS_SUSPEND, FUNCTIONFS_BIND, FUNCTIONFS_BIND, FUNCTIONFS_BIND],
        ev_count := 1\<rparr>)"
    by (simp add: ffs_event_add_def ffs_setup_pending_def ffs_data_new_def)
  have c: "env_inst_exist_check ep0_env_quiet = None"
    by (simp add: ep0_env_quiet_def)
  from pending_setup_cancelled_by_enqueue [OF a b c, of 8 "[1, 2, 3]"] a b show ?thesis
    by simp
qed

text \<open>
  C5 as the specification words it fails: with a setup packet pending whose data stage is
  device-to-host (\<^verbatim>\<open>USB_DIR_IN\<close> set in \<^verbatim>\<open>bRequestType\<close>), a read stalls the control
  endpoint.
\<close>

theorem ep0_read_device_to_host_stalls:
  "ffs_ep0_read ep0_env_quiet (ffs_setup_pending 0x80) 8 =
     Some (Inl EL2HLT, ffs_setup_pending 0x80\<lparr>setup_state := FFS_NO_SETUP\<rparr>,
           [EP0_SET_HALT], NoOutput)"
  by (simp add: ffs_ep0_read_def ep0_read_setup_pending_def ffs_ep0_stall_def
      ffs_setup_state_clear_cancelled_def ep0_env_quiet_def ffs_setup_pending_def
      ffs_data_new_def zero_ctrlrequest_def USB_DIR_IN_def)

text \<open>
  C5, as the code has it.  A read in state active with a setup packet pending, on a live
  instance, with the mutex taken and no event delivered meanwhile: if the data stage is
  device-to-host the control endpoint is stalled (\<^verbatim>\<open>EL2HLT\<close> and sub-state no-setup when
  stalling is permitted, \<^verbatim>\<open>ESRCH\<close> otherwise); if it is host-to-device a buffer of
  \<^verbatim>\<open>min(len, wLength)\<close> bytes is allocated, the transfer is queued and awaited, the
  sub-state returns to no-setup on completion and the data is copied out.
\<close>

theorem ep0_read_setup_pending_data_stage:
  assumes "state ffs = FFS_ACTIVE" and "setup_state ffs = FFS_SETUP_PENDING"
    and "env_inst_exist_check env = None" and "env_mutex_lock env = None"
    and "env_raced_unlocked env = []" and "env_raced_buffer env = []"
    and "env_raced_wait env = []"
  shows "ffs_ep0_read env ffs len =
     Some (let len' = min len (unat (wLength (ev_setup ffs)));
               queued = EP0_QUEUE len' (len' < unat (wLength (ev_setup ffs)))
           in if bRequestType (ev_setup ffs) AND USB_DIR_IN \<noteq> 0 then
                (if ev_can_stall ffs
                 then (Inl EL2HLT, ffs\<lparr>setup_state := FFS_NO_SETUP\<rparr>, [EP0_SET_HALT],
                       NoOutput)
                 else (Inl ESRCH, ffs, [], NoOutput))
              else if len' \<noteq> 0 \<and> env_buffer env \<noteq> None then (Inl ENOMEM, ffs, [], NoOutput)
              else
                (case env_usb_ep_queue env of
                   Some e \<Rightarrow> (Inl e, ffs, [queued], NoOutput)
                 | None \<Rightarrow>
                     (case env_completion env of
                        None \<Rightarrow> (Inl EINTR, ffs, [queued, EP0_DEQUEUE], NoOutput)
                      | Some (Some e, actual) \<Rightarrow>
                          (Inl e, ffs\<lparr>setup_state := FFS_NO_SETUP\<rparr>, [queued], NoOutput)
                      | Some (None, actual) \<Rightarrow>
                          (if actual > 0 \<and> env_copy_to_user_fails env
                           then (Inl EFAULT, ffs\<lparr>setup_state := FFS_NO_SETUP\<rparr>, [queued],
                                 NoOutput)
                           else (Inr actual, ffs\<lparr>setup_state := FFS_NO_SETUP\<rparr>, [queued],
                                 if actual > 0 then OutData (take len' (env_rx env))
                                 else NoOutput)))))"
  using assms
  by (simp add: ffs_ep0_read_def ep0_read_setup_pending_def ffs_ep0_stall_def
      ffs_setup_state_clear_cancelled_def ffs_ep0_queue_wait_def Let_def
      split: option.splits)

theorem ep0_read_setup_pending_data_stage_witness:
  "ffs_ep0_read ep0_env_quiet (ffs_setup_pending 0) 64 =
     Some (Inr 8, ffs_setup_pending 0\<lparr>setup_state := FFS_NO_SETUP\<rparr>,
           [EP0_QUEUE 8 False], OutData [1, 2, 3, 4, 5, 6, 7, 8])"
proof -
  have "state (ffs_setup_pending 0) = FFS_ACTIVE"
    "setup_state (ffs_setup_pending 0) = FFS_SETUP_PENDING"
    "env_inst_exist_check ep0_env_quiet = None" "env_mutex_lock ep0_env_quiet = None"
    "env_raced_unlocked ep0_env_quiet = []" "env_raced_buffer ep0_env_quiet = []"
    "env_raced_wait ep0_env_quiet = []"
    by (simp_all add: ffs_setup_pending_def ep0_env_quiet_def ffs_data_new_def)
  from ep0_read_setup_pending_data_stage [OF this, of 64] show ?thesis
    by (simp add: ffs_setup_pending_def ep0_env_quiet_def ffs_data_new_def
        zero_ctrlrequest_def USB_DIR_IN_def)
qed

section \<open>Properties of the endpoint files\<close>

lemma epfile_wait_torn_down:
  "epfile_wait epfile (replicate n WAIT_TORN_DOWN) =
     (STILL_WAITING, if n = 0 then epfile else epfile\<lparr>epfile_error := True\<rparr>)"
  by (induction n arbitrary: epfile) simp_all

text \<open>
  C7 as the specification words it fails.  A blocking reader asleep in the wait for the
  handle is not woken when the endpoint is torn down: with the error flag set it is still
  blocked; and when a signal then ends the wait the call fails with \<^verbatim>\<open>ERESTARTSYS\<close>,
  not with \<^verbatim>\<open>ENODEV\<close>.
\<close>

theorem torn_down_reader_is_not_woken:
  "ffs_epfile_io None False \<lparr>io_aio = False, io_read = True, io_count = 512\<rparr>
     (epfile_bulk False\<lparr>epfile_ep := None\<rparr>)
     [io_env_quiet (Inr 100)\<lparr>ioe_wait := [WAIT_TORN_DOWN]\<rparr>] =
   Some (Blocked (epfile_bulk False\<lparr>epfile_ep := None, epfile_error := True\<rparr>) [IO_WAIT_EP]) \<and>
   ffs_epfile_io None False \<lparr>io_aio = False, io_read = True, io_count = 512\<rparr>
     (epfile_bulk False\<lparr>epfile_ep := None\<rparr>)
     [io_env_quiet (Inr 100)\<lparr>ioe_wait := [WAIT_TORN_DOWN, WAIT_SIGNAL]\<rparr>] =
   Some (Done (Inl ERESTARTSYS)
           (epfile_bulk False\<lparr>epfile_ep := None, epfile_error := True\<rparr>) [IO_WAIT_EP])"
  by (simp add: ffs_epfile_io_def epfile_io_pass_def epfile_io_wait_ep_def epfile_bulk_def
      io_env_quiet_def)

text \<open>
  C7, as the code has it.  A call on an endpoint file whose endpoint is not enabled (no
  handle), with the error flag clear on entry, in an active session of a live instance:
  a non-blocking caller fails with \<^verbatim>\<open>EAGAIN\<close>; a blocking writer fails at once
  (\<^verbatim>\<open>EINTR\<close>), without waiting; a blocking reader that finds the error flag set before
  it would sleep fails with \<^verbatim>\<open>ENODEV\<close>, without waiting; otherwise the reader sleeps
  until a handle is assigned or a signal arrives, and then goes on with the transfer or
  fails with \<^verbatim>\<open>ERESTARTSYS\<close>.  A teardown while the reader sleeps sets the error flag
  and does not end the wait: after any number of teardowns alone the reader is still
  blocked.
\<close>

theorem epfile_io_without_handle:
  assumes "epfile_ep epfile = None" and "\<not> epfile_error epfile"
    and "epfile_ffs_state epfile = FFS_ACTIVE"
  shows "ffs_epfile_io None nonblock io_data epfile (env # envs) =
     (if nonblock then Some (Done (Inl EAGAIN) epfile [])
      else if \<not> io_read io_data then Some (Done (Inl EINTR) epfile [])
      else if ioe_error_recheck env
        then Some (Done (Inl ENODEV) (epfile\<lparr>epfile_error := True\<rparr>) [])
      else case epfile_wait epfile (ioe_wait env) of
          (STILL_WAITING, epfile') \<Rightarrow> Some (Blocked epfile' [IO_WAIT_EP])
        | (INTERRUPTED, epfile') \<Rightarrow> Some (Done (Inl ERESTARTSYS) epfile' [IO_WAIT_EP])
        | (GOT_EP ep, epfile') \<Rightarrow>
            (case epfile_io_transfer io_data epfile' env [IO_WAIT_EP] of
               Retry epfile'' acts \<Rightarrow> epfile_io_retry nonblock io_data epfile'' envs acts
             | outcome \<Rightarrow> Some outcome)) \<and>
   ffs_epfile_io None False (io_data\<lparr>io_read := True\<rparr>) epfile
     (env\<lparr>ioe_error_recheck := False, ioe_wait := replicate n WAIT_TORN_DOWN\<rparr> # envs) =
     Some (Blocked (if n = 0 then epfile else epfile\<lparr>epfile_error := True\<rparr>) [IO_WAIT_EP])"
proof
  show "ffs_epfile_io None nonblock io_data epfile (env # envs) =
     (if nonblock then Some (Done (Inl EAGAIN) epfile [])
      else if \<not> io_read io_data then Some (Done (Inl EINTR) epfile [])
      else if ioe_error_recheck env
        then Some (Done (Inl ENODEV) (epfile\<lparr>epfile_error := True\<rparr>) [])
      else case epfile_wait epfile (ioe_wait env) of
          (STILL_WAITING, epfile') \<Rightarrow> Some (Blocked epfile' [IO_WAIT_EP])
        | (INTERRUPTED, epfile') \<Rightarrow> Some (Done (Inl ERESTARTSYS) epfile' [IO_WAIT_EP])
        | (GOT_EP ep, epfile') \<Rightarrow>
            (case epfile_io_transfer io_data epfile' env [IO_WAIT_EP] of
               Retry epfile'' acts \<Rightarrow> epfile_io_retry nonblock io_data epfile'' envs acts
             | outcome \<Rightarrow> Some outcome))"
    using assms
    by (simp add: ffs_epfile_io_def epfile_io_pass_def epfile_io_wait_ep_def
        split: prod.splits wait_end.splits io_outcome.splits)
next
  show "ffs_epfile_io None False (io_data\<lparr>io_read := True\<rparr>) epfile
     (env\<lparr>ioe_error_recheck := False, ioe_wait := replicate n WAIT_TORN_DOWN\<rparr> # envs) =
     Some (Blocked (if n = 0 then epfile else epfile\<lparr>epfile_error := True\<rparr>) [IO_WAIT_EP])"
    using assms
    by (simp add: ffs_epfile_io_def epfile_io_pass_def epfile_io_wait_ep_def
        epfile_wait_torn_down)
qed

theorem epfile_io_without_handle_witness:
  "ffs_epfile_io None False \<lparr>io_aio = False, io_read = True, io_count = 512\<rparr>
     (epfile_bulk False\<lparr>epfile_ep := None\<rparr>)
     [io_env_quiet (Inr 100)\<lparr>ioe_wait := [WAIT_ENABLED 1 False False]\<rparr>] =
   Some (Done (Inr 100) (epfile_bulk False\<lparr>first_read_done := True\<rparr>)
           [IO_WAIT_EP, IO_QUEUE 512, IO_COPY_TO_ITER 100])"
proof -
  have "epfile_ep (epfile_bulk False\<lparr>epfile_ep := None\<rparr>) = None"
    "\<not> epfile_error (epfile_bulk False\<lparr>epfile_ep := None\<rparr>)"
    "epfile_ffs_state (epfile_bulk False\<lparr>epfile_ep := None\<rparr>) = FFS_ACTIVE"
    by (simp_all add: epfile_bulk_def)
  from epfile_io_without_handle [OF this, THEN conjunct1] show ?thesis
    by (simp add: io_env_quiet_def epfile_bulk_def epfile_io_transfer_def epfile_io_sync_def
        usb_ep_align_maybe_def Let_def)
qed

text \<open>
  C9.  A call whose direction does not match the endpoint's (a read on an IN endpoint, a
  write on an OUT endpoint), on an enabled endpoint of an active session: on an
  isochronous endpoint it fails with \<^verbatim>\<open>EINVAL\<close> and nothing is asked of the transport;
  on a bulk or interrupt endpoint, once the mutex of the file is taken and the endpoint is
  still the same, the endpoint is halted and the call fails with \<^verbatim>\<open>EBADMSG\<close>.
\<close>

theorem epfile_io_direction_mismatch:
  assumes "\<not> epfile_error epfile" and "epfile_ffs_state epfile = FFS_ACTIVE"
    and "epfile_ep epfile = Some ep" and "io_read io_data = epfile_in epfile"
  shows "ffs_epfile_io None nonblock io_data epfile (env # envs) =
     Some (if epfile_isoc epfile then Done (Inl EINVAL) epfile []
           else case ioe_mutex_lock env of
               Some e \<Rightarrow> Done (Inl e) epfile []
             | None \<Rightarrow>
                 if ioe_ep_changed_lock env then Done (Inl ESHUTDOWN) epfile []
                 else Done (Inl EBADMSG) epfile
                        (if ioe_ep_ep_null env then [] else [IO_SET_HALT]))"
  using assms
  by (simp add: ffs_epfile_io_def epfile_io_pass_def epfile_io_wait_ep_def
      epfile_io_transfer_def Let_def split: option.splits)

theorem epfile_io_direction_mismatch_witness:
  "ffs_epfile_io None False \<lparr>io_aio = False, io_read = True, io_count = 512\<rparr>
     (epfile_bulk True) [io_env_quiet (Inr 100)] =
   Some (Done (Inl EBADMSG) (epfile_bulk True) [IO_SET_HALT])"
proof -
  have "\<not> epfile_error (epfile_bulk True)" "epfile_ffs_state (epfile_bulk True) = FFS_ACTIVE"
    "epfile_ep (epfile_bulk True) = Some 1"
    "io_read \<lparr>io_aio = False, io_read = True, io_count = 512\<rparr> = epfile_in (epfile_bulk True)"
    by (simp_all add: epfile_bulk_def)
  from epfile_io_direction_mismatch [OF this] show ?thesis
    by (simp add: io_env_quiet_def epfile_bulk_def)
qed

text \<open>
  C8 does not hold of the code.  A synchronous read of 10 bytes from a bulk-OUT endpoint
  whose controller wants buffers aligned to the packet size (512) allocates 512 bytes; a
  completion that reports 100 bytes is compared with 512, not with 10, passes, and the
  call returns the 10 bytes that fit, without \<^verbatim>\<open>EOVERFLOW\<close>.
\<close>

theorem sync_read_truncates_within_aligned_buffer:
  "ffs_epfile_io None False \<lparr>io_aio = False, io_read = True, io_count = 10\<rparr>
     (epfile_bulk False) [io_env_quiet (Inr 100)] =
   Some (Done (Inr 10) (epfile_bulk False\<lparr>first_read_done := True\<rparr>)
           [IO_QUEUE 512, IO_COPY_TO_ITER 10])"
  by (simp add: ffs_epfile_io_def epfile_io_pass_def epfile_io_wait_ep_def
      epfile_io_transfer_def Let_def epfile_io_sync_def usb_ep_align_maybe_def
      epfile_bulk_def io_env_quiet_def)


section \<open>Properties of the descriptor parser\<close>

lemmas usb_consts =
  USB_DT_DEVICE_def USB_DT_CONFIG_def USB_DT_STRING_def USB_DT_INTERFACE_def
  USB_DT_ENDPOINT_def USB_DT_DEVICE_QUALIFIER_def USB_DT_OTHER_SPEED_CONFIG_def
  USB_DT_INTERFACE_POWER_def USB_DT_OTG_def USB_DT_DEBUG_def
  USB_DT_INTERFACE_ASSOCIATION_def USB_DT_SECURITY_def HID_DT_HID_def
  USB_DT_CS_RADIO_CONTROL_def USB_DT_SS_ENDPOINT_COMP_def USB_ENDPOINT_NUMBER_MASK_def
  USB_DT_INTERFACE_SIZE_def USB_DT_ENDPOINT_SIZE_def USB_DT_ENDPOINT_AUDIO_SIZE_def
  sizeof_hid_descriptor_def sizeof_usb_otg_descriptor_def
  sizeof_usb_interface_assoc_descriptor_def sizeof_usb_ss_ep_comp_descriptor_def

lemma single_otg:
  "ffs_do_single_desc (otg_desc @ rest) entity priv = (Inr 3, priv)"
  by (simp add: ffs_do_single_desc_def otg_desc_def usb_consts Let_def)

lemma single_interface:
  "ffs_do_single_desc (interface_desc @ rest) ffs_data_do_entity
     \<lparr>helper_ffs = ffs, helper_interfaces_count = 0, helper_eps_count = n\<rparr> =
   (Inr 9, \<lparr>helper_ffs = ffs, helper_interfaces_count = 1, helper_eps_count = n\<rparr>)"
  by (simp add: ffs_do_single_desc_def interface_desc_def usb_consts Let_def entity_call_def)

lemma single_endpoint:
  "eps_count ffs = 0 \<Longrightarrow> interfaces_count ffs = 0 \<Longrightarrow>
   ffs_do_single_desc (endpoint_desc @ rest) ffs_data_do_entity
     \<lparr>helper_ffs = ffs, helper_interfaces_count = 0, helper_eps_count = 0\<rparr> =
   (Inr 7, \<lparr>helper_ffs = ffs\<lparr>eps_addrmap := (eps_addrmap ffs)[1 := 0x81]\<rparr>,
            helper_interfaces_count = 0, helper_eps_count = 1\<rparr>)"
  by (simp add: ffs_do_single_desc_def endpoint_desc_def usb_consts Let_def entity_call_def)

lemma tier_counts_otg: "tier_counts ffs 1 (otg_desc @ rest) = Some (0, 0)"
  by (simp add: tier_counts_def ffs_do_descs_def single_otg)

lemma tier_counts_interface: "tier_counts ffs 1 (interface_desc @ rest) = Some (1, 0)"
  by (simp add: tier_counts_def ffs_do_descs_def single_interface)


lemmas blob_defs = blob_otg_then_interface_def blob_endpoint_then_interface_def otg_desc_def
  interface_desc_def endpoint_desc_def

lemmas flag_consts = FUNCTIONFS_DESCRIPTORS_MAGIC_def FUNCTIONFS_DESCRIPTORS_MAGIC_V2_def
  FUNCTIONFS_HAS_FS_DESC_def FUNCTIONFS_HAS_HS_DESC_def FUNCTIONFS_HAS_SS_DESC_def
  FUNCTIONFS_HAS_MS_OS_DESC_def FUNCTIONFS_VIRTUAL_ADDR_def FUNCTIONFS_EVENTFD_def

lemma got_descs_body_otg_then_interface:
  "got_descs_body fdget ffs_data_new blob_otg_then_interface 3 (drop 8 blob_otg_then_interface) =
   (None, ffs_data_new\<lparr>interfaces_count := 1,
            raw_descs_data := Some blob_otg_then_interface,
            raw_descs := otg_desc @ interface_desc, raw_descs_length := 12,
            fs_descs_count := 1, hs_descs_count := 1\<rparr>)"
  by (simp add: got_descs_body_def got_descs_eventfd_def got_descs_counts_def read_count_def
      get_unaligned_le32_def flag_consts
      blob_defs ffs_do_descs_def ffs_do_single_desc_def usb_consts Let_def entity_call_def
      ffs_data_new_def)

text \<open>
  C1 does not hold of the code.  The legacy-format blob whose full-speed tier is one OTG
  descriptor and whose high-speed tier is one interface descriptor is accepted, although
  the two tiers compute different interface counts (0 and 1): after a tier with no
  interface and no endpoint the session's counts are still zero, which the code reads as
  "no tier parsed yet".
\<close>

theorem tiers_with_different_counts_accepted:
  "ffs_data_got_descs fdget ffs_data_new blob_otg_then_interface =
     (None, ffs_data_new\<lparr>interfaces_count := 1,
              raw_descs_data := Some blob_otg_then_interface,
              raw_descs := otg_desc @ interface_desc, raw_descs_length := 12,
              fs_descs_count := 1, hs_descs_count := 1\<rparr>) \<and>
   tier_counts ffs_data_new 1 otg_desc = Some (0, 0) \<and>
   tier_counts ffs_data_new 1 interface_desc = Some (1, 0)"
proof -
  have "get_unaligned_le32 (drop 4 blob_otg_then_interface) = 28"
    "get_unaligned_le32 blob_otg_then_interface = 1"
    "length blob_otg_then_interface = 28"
    by (simp_all add: get_unaligned_le32_def blob_defs)
  moreover have "tier_counts ffs_data_new 1 otg_desc = Some (0, 0)"
    using tier_counts_otg [of ffs_data_new "[]"] by simp
  moreover have "tier_counts ffs_data_new 1 interface_desc = Some (1, 0)"
    using tier_counts_interface [of ffs_data_new "[]"] by simp
  ultimately show ?thesis
    using got_descs_body_otg_then_interface [of fdget] by (simp add: ffs_data_got_descs_def flag_consts)
qed

text \<open>
  C6 as the specification words it fails: the blob whose full-speed tier is one endpoint
  descriptor and whose high-speed tier is one interface descriptor is rejected when the
  high-speed counts differ, and the endpoint count and address-map entry written after the
  full-speed tier stay in the session.
\<close>

theorem rejected_blob_leaves_counts_behind:
  "ffs_ep0_write ep0_env_quiet ffs_data_new blob_endpoint_then_interface =
     Some (Inl EINVAL,
           ffs_data_new\<lparr>eps_count := 1,
             eps_addrmap := [0, 0x81, 0, 0, 0, 0, 0, 0, 0, 0, 0, 0, 0, 0, 0]\<rparr>,
           [], NoOutput)"
proof -
  have b: "got_descs_body (env_eventfd_ctx_fdget ep0_env_quiet) ffs_data_new
        blob_endpoint_then_interface 3 (drop 8 blob_endpoint_then_interface) =
        (Some EINVAL, ffs_data_new\<lparr>eps_count := 1,
             eps_addrmap := [0, 0x81, 0, 0, 0, 0, 0, 0, 0, 0, 0, 0, 0, 0, 0]\<rparr>)"
    by (simp add: got_descs_body_def got_descs_eventfd_def got_descs_counts_def read_count_def
      get_unaligned_le32_def flag_consts
      blob_defs ffs_do_descs_def ffs_do_single_desc_def usb_consts Let_def entity_call_def
      ffs_data_new_def)
  have "get_unaligned_le32 (drop 4 blob_endpoint_then_interface) = 32"
    "get_unaligned_le32 blob_endpoint_then_interface = 1"
    "length blob_endpoint_then_interface = 32"
    by (simp_all add: get_unaligned_le32_def blob_defs)
  then have "ffs_data_got_descs (env_eventfd_ctx_fdget ep0_env_quiet) ffs_data_new
        blob_endpoint_then_interface = (Some EINVAL, ffs_data_new\<lparr>eps_count := 1,
             eps_addrmap := [0, 0x81, 0, 0, 0, 0, 0, 0, 0, 0, 0, 0, 0, 0, 0]\<rparr>)"
    using b by (simp add: ffs_data_got_descs_def flag_consts)
  moreover have "length blob_endpoint_then_interface = 32"
    by (simp add: blob_defs)
  ultimately show ?thesis
    by (simp add: ffs_ep0_write_def ep0_write_collecting_def ep0_env_quiet_def
        ffs_setup_state_clear_cancelled_def ffs_data_new_def)
qed



subsection \<open>The limit of fourteen endpoints\<close>

lemma unat_eps_suc: "unat (n :: u32) \<le> 14 \<Longrightarrow> unat (n + 1) = unat n + 1"
  by (simp add: unat_word_ariths)

lemma do_entity_error:
  "ffs_data_do_entity t v d h = (Some e, h') \<Longrightarrow> e = EINVAL"
  by (cases t) (auto simp: Let_def split: if_splits)

lemma do_entity_endpoint:
  "ffs_data_do_entity FFS_ENDPOINT v d h = (None, h') \<Longrightarrow> unat (helper_eps_count h) \<le> 14 \<Longrightarrow>
   unat (helper_eps_count h') = unat (helper_eps_count h) + 1 \<and> unat (helper_eps_count h') \<le> 14"
  by (auto simp: Let_def unat_eps_suc split: if_splits)

lemma do_entity_other:
  "ffs_data_do_entity t v d h = (None, h') \<Longrightarrow> t \<noteq> FFS_ENDPOINT \<Longrightarrow>
   helper_eps_count h' = helper_eps_count h"
  by (cases t) (auto split: if_splits)

lemma entity_call_error:
  "entity_call ffs_data_do_entity t v d h = (Some e, h') \<Longrightarrow> e = EINVAL"
  by (auto simp: entity_call_def dest: do_entity_error split: if_splits)

lemma entity_call_endpoint:
  "entity_call ffs_data_do_entity FFS_ENDPOINT v d h = (None, h') \<Longrightarrow>
   unat (helper_eps_count h) \<le> 14 \<Longrightarrow>
   unat (helper_eps_count h') = unat (helper_eps_count h) + 1 \<and> unat (helper_eps_count h') \<le> 14"
proof -
  assume a: "entity_call ffs_data_do_entity FFS_ENDPOINT v d h = (None, h')"
    and b: "unat (helper_eps_count h) \<le> 14"
  from a have "ffs_data_do_entity FFS_ENDPOINT (unat v) (Some d) h = (None, h')"
    unfolding entity_call_def
    by (cases "entity_check FFS_ENDPOINT v")
      (simp_all del: ffs_data_do_entity.simps entity_check.simps)
  from do_entity_endpoint [OF this b] show ?thesis .
qed

lemma entity_call_other:
  "entity_call ffs_data_do_entity t v d h = (None, h') \<Longrightarrow> t \<noteq> FFS_ENDPOINT \<Longrightarrow>
   helper_eps_count h' = helper_eps_count h"
  unfolding entity_call_def by (auto dest: do_entity_other split: if_splits)

lemma single_desc_error:
  "ffs_do_single_desc data ffs_data_do_entity h = (Inl e, h') \<Longrightarrow> e = EINVAL"
  unfolding ffs_do_single_desc_def Let_def
  by (auto dest: entity_call_error split: if_splits prod.splits option.splits)

lemma single_desc_ok:
  assumes "ffs_do_single_desc data ffs_data_do_entity h = (Inr ret, h')"
    and "unat (helper_eps_count h) \<le> 14"
  shows "2 \<le> length data \<and> ret = unat (data ! 0) \<and> ret \<le> length data \<and>
         unat (helper_eps_count h') =
           unat (helper_eps_count h) + (if data ! 1 = USB_DT_ENDPOINT then 1 else 0) \<and>
         unat (helper_eps_count h') \<le> 14"
proof (cases "data ! 1 = USB_DT_ENDPOINT")
  case True
  then have ne: "data ! 1 \<noteq> USB_DT_DEVICE" "data ! 1 \<noteq> USB_DT_CONFIG" "data ! 1 \<noteq> USB_DT_STRING"
    "data ! 1 \<noteq> USB_DT_DEVICE_QUALIFIER" "data ! 1 \<noteq> USB_DT_INTERFACE"
    by (simp_all add: USB_DT_ENDPOINT_def USB_DT_DEVICE_def USB_DT_CONFIG_def USB_DT_STRING_def
        USB_DT_DEVICE_QUALIFIER_def USB_DT_INTERFACE_def)
  from assms(1) True ne obtain h1 where
    "entity_call ffs_data_do_entity FFS_ENDPOINT (data ! 2) data h = (None, h1)"
    "h' = h1" "ret = unat (data ! 0)" "2 \<le> length data" "ret \<le> length data"
    unfolding ffs_do_single_desc_def Let_def
    by (auto split: if_splits prod.splits option.splits)
  with entity_call_endpoint [of "data ! 2" data h h1] assms(2) True show ?thesis by simp
next
  case False
  from assms(1) False have "2 \<le> length data \<and> ret = unat (data ! 0) \<and>
     ret \<le> length data \<and> helper_eps_count h' = helper_eps_count h"
    unfolding ffs_do_single_desc_def Let_def
    by (auto dest!: entity_call_other split: if_splits prod.splits option.splits)
  with assms(2) False show ?thesis by simp
qed

lemma do_descs_from_error:
  "ffs_do_descs_from k num data ffs_data_do_entity h = (Inl e, h') \<Longrightarrow> e = EINVAL"
proof (induction k arbitrary: num data h)
  case 0
  then show ?case by simp
next
  case (Suc k)
  then show ?case
    by (auto dest: single_desc_error split: prod.splits sum.splits)
qed

lemma do_descs_from_ok:
  "ffs_do_descs_from k num data ffs_data_do_entity h = (Inr rest, h') \<Longrightarrow>
   unat (helper_eps_count h) \<le> 14 \<Longrightarrow>
   unat (helper_eps_count h') = unat (helper_eps_count h) + n_endpoint_descs k data \<and>
   unat (helper_eps_count h') \<le> 14 \<and>
   rest = drop (descs_size k data) data \<and> descs_size k data \<le> length data"
proof (induction k arbitrary: num data h)
  case 0
  then show ?case by simp
next
  case (Suc k)
  from Suc.prems(1) obtain ret h1 where
    s: "ffs_do_single_desc data ffs_data_do_entity h = (Inr ret, h1)"
    and r: "ffs_do_descs_from k (Suc num) (drop ret data) ffs_data_do_entity h1 = (Inr rest, h')"
    by (auto split: prod.splits sum.splits)
  from single_desc_ok [OF s Suc.prems(2)] have
    d: "2 \<le> length data" "ret = unat (data ! 0)" "ret \<le> length data"
    "unat (helper_eps_count h1) =
       unat (helper_eps_count h) + (if data ! 1 = USB_DT_ENDPOINT then 1 else 0)"
    "unat (helper_eps_count h1) \<le> 14" by simp_all
  from Suc.IH [OF r d(5)] have
    i: "unat (helper_eps_count h') =
          unat (helper_eps_count h1) + n_endpoint_descs k (drop ret data)"
    "unat (helper_eps_count h') \<le> 14"
    "rest = drop (descs_size k (drop ret data)) (drop ret data)"
    "descs_size k (drop ret data) \<le> length (drop ret data)" by simp_all
  have "descs_size (Suc k) data = ret + descs_size k (drop ret data)"
    "n_endpoint_descs (Suc k) data =
       (if data ! 1 = USB_DT_ENDPOINT then 1 else 0) + n_endpoint_descs k (drop ret data)"
    using d(1,2) by simp_all
  moreover have "rest = drop (ret + descs_size k (drop ret data)) data"
    using i(3) by (simp add: add.commute)
  moreover have "ret + descs_size k (drop ret data) \<le> length data"
    using i(4) d(3) by simp
  ultimately show ?case
    using i(1,2) d(4) by simp
qed

lemma tier_too_many_endpoints:
  assumes "14 < n_endpoint_descs count data"
  shows "fst (ffs_do_descs count data ffs_data_do_entity
                \<lparr>helper_ffs = ffs, helper_interfaces_count = 0, helper_eps_count = 0\<rparr>) =
         Inl EINVAL"
proof -
  let ?h = "\<lparr>helper_ffs = ffs, helper_interfaces_count = 0, helper_eps_count = 0\<rparr>"
  obtain r h' where res: "ffs_do_descs_from count 0 data ffs_data_do_entity ?h = (r, h')"
    by (cases "ffs_do_descs_from count 0 data ffs_data_do_entity ?h") auto
  show ?thesis
  proof (cases r)
    case (Inl e)
    with res do_descs_from_error [of count 0 data ?h e h'] show ?thesis
      by (simp add: ffs_do_descs_def)
  next
    case (Inr rest)
    with res do_descs_from_ok [of count 0 data ?h rest h'] assms show ?thesis
      by simp
  qed
qed

lemma do_descs_result:
  "ffs_do_descs count data ffs_data_do_entity
     \<lparr>helper_ffs = ffs, helper_interfaces_count = 0, helper_eps_count = 0\<rparr> = (r, h') \<Longrightarrow>
   (case r of
      Inl e \<Rightarrow> e = EINVAL
    | Inr ret \<Rightarrow> n_endpoint_descs count data \<le> 14 \<and> ret = descs_size count data)"
proof -
  let ?h = "\<lparr>helper_ffs = ffs, helper_interfaces_count = 0, helper_eps_count = 0\<rparr>"
  assume a: "ffs_do_descs count data ffs_data_do_entity ?h = (r, h')"
  obtain r0 h0 where res: "ffs_do_descs_from count 0 data ffs_data_do_entity ?h = (r0, h0)"
    by (cases "ffs_do_descs_from count 0 data ffs_data_do_entity ?h") auto
  show ?thesis
  proof (cases r0)
    case (Inl e)
    with res a do_descs_from_error [of count 0 data ?h e h0] show ?thesis
      by (auto simp: ffs_do_descs_def)
  next
    case (Inr rest)
    with res do_descs_from_ok [of count 0 data ?h rest h0] a show ?thesis
      by (auto simp: ffs_do_descs_def)
  qed
qed

lemma read_descriptors_result:
  "read_descriptors counts ffs data = (r, ffs') \<Longrightarrow>
   (case r of
      Inl e \<Rightarrow> e = EINVAL
    | Inr rest \<Rightarrow> list_all (\<lambda>n. n \<le> 14) (tier_endpoint_counts counts data))"
proof (induction counts arbitrary: ffs data)
  case Nil
  then show ?case by auto
next
  case (Cons c counts)
  show ?case
  proof (cases "c = 0")
    case True
    with Cons.prems have "read_descriptors counts ffs data = (r, ffs')" by simp
    from Cons.IH [OF this] True show ?thesis by (cases r) simp_all
  next
    case False
    let ?h = "\<lparr>helper_ffs = ffs, helper_interfaces_count = 0, helper_eps_count = 0\<rparr>"
    obtain r1 h1 where d: "ffs_do_descs (unat c) data ffs_data_do_entity ?h = (r1, h1)"
      by (cases "ffs_do_descs (unat c) data ffs_data_do_entity ?h") auto
    note res = do_descs_result [OF d]
    show ?thesis
    proof (cases r1)
      case (Inl e)
      with res d False Cons.prems show ?thesis by auto
    next
      case (Inr ret)
      with res have n: "n_endpoint_descs (unat c) data \<le> 14"
        and ret: "ret = descs_size (unat c) data" by simp_all
      from Cons.prems d False Inr consider
        (err) "r = Inl EINVAL"
        | (rec) ffs1 where "read_descriptors counts ffs1 (drop ret data) = (r, ffs')"
        by (auto simp: Let_def split: if_splits)
      then show ?thesis
      proof cases
        case err
        then show ?thesis by simp
      next
        case rec
        from Cons.IH [OF rec] n ret False show ?thesis
          by (cases r) simp_all
      qed
    qed
  qed
qed

lemma walk_error_rejects_blob:
  assumes "got_descs_eventfd fdget ffs flags data = Inr (ffs1, data1)"
    and "got_descs_counts flags data1 = Some (c0, c1, c2, os_descs_count, raw)"
    and "fst (read_descriptors [c0, c1, c2] ffs1 raw) = Inl e"
  shows "fst (got_descs_body fdget ffs blob flags data) = Some e"
proof -
  obtain ffs2 where "read_descriptors [c0, c1, c2] ffs1 raw = (Inl e, ffs2)"
    using assms(3) by (cases "read_descriptors [c0, c1, c2] ffs1 raw") simp
  with assms(1,2) show ?thesis
    by (simp add: got_descs_body_def del: read_descriptors.simps)
qed

text \<open>
  C10.  When one of the tiers that \<^verbatim>\<open>__ffs_data_got_descs\<close> walks holds more than 14
  endpoint descriptors, the walk of the tiers fails with \<^verbatim>\<open>EINVAL\<close> (and with it the
  acceptance of the blob, which returns the error of the walk): the fifteenth endpoint
  descriptor of a tier makes \<^verbatim>\<open>__ffs_data_do_entity\<close> return \<^verbatim>\<open>-EINVAL\<close>.
\<close>

theorem fifteenth_endpoint_rejected:
  assumes "list_ex (\<lambda>n. 14 < n) (tier_endpoint_counts counts data)"
  shows "fst (read_descriptors counts ffs data) = Inl EINVAL"
proof -
  obtain r ffs' where res: "read_descriptors counts ffs data = (r, ffs')"
    by (cases "read_descriptors counts ffs data") auto
  from read_descriptors_result [OF res] assms show ?thesis
    by (cases r) (auto simp: res list_all_iff list_ex_iff)
qed

lemma n_endpoint_descs_replicate:
  "n_endpoint_descs k (concat (replicate k endpoint_desc) @ rest) = k"
  by (induction k) (simp_all add: endpoint_desc_def USB_DT_ENDPOINT_def)

lemma fifteen_counts: "tier_endpoint_counts [15] fifteen_endpoints = [15]"
  using n_endpoint_descs_replicate [of 15 "[]"] by (simp add: fifteen_endpoints_def)

theorem fifteenth_endpoint_rejected_witness:
  "tier_endpoint_counts [15] fifteen_endpoints = [15] \<and>
   fst (read_descriptors [15] ffs_data_new fifteen_endpoints) = Inl EINVAL"
proof -
  have c: "tier_endpoint_counts [15] fifteen_endpoints = [15]"
    by (rule fifteen_counts)
  then have "list_ex (\<lambda>n. 14 < n) (tier_endpoint_counts [15] fifteen_endpoints)"
    by simp
  from fifteenth_endpoint_rejected [OF this] c show ?thesis by simp
qed

lemma entity_endpoint_fresh:
  "eps_count ffs = 0 \<Longrightarrow> interfaces_count ffs = 0 \<Longrightarrow> unat n < 14 \<Longrightarrow>
   ffs_do_single_desc (endpoint_desc @ rest) ffs_data_do_entity
     \<lparr>helper_ffs = ffs, helper_interfaces_count = 0, helper_eps_count = n\<rparr> =
   (Inr 7, \<lparr>helper_ffs = ffs\<lparr>eps_addrmap := (eps_addrmap ffs)[unat (n + 1) := 0x81]\<rparr>,
            helper_interfaces_count = 0, helper_eps_count = n + 1\<rparr>)"
  by (simp add: ffs_do_single_desc_def endpoint_desc_def usb_consts Let_def entity_call_def
      unat_word_ariths)

lemma walk_endpoints_fresh:
  "eps_count ffs = 0 \<Longrightarrow> interfaces_count ffs = 0 \<Longrightarrow> unat n + k \<le> 14 \<Longrightarrow>
   \<exists>h. ffs_do_descs_from k num (concat (replicate k endpoint_desc))
          ffs_data_do_entity
          \<lparr>helper_ffs = ffs, helper_interfaces_count = 0, helper_eps_count = n\<rparr> = (Inr [], h) \<and>
        helper_interfaces_count h = 0 \<and> unat (helper_eps_count h) = unat n + k \<and>
        eps_count (helper_ffs h) = 0 \<and> interfaces_count (helper_ffs h) = 0"
proof (induction k arbitrary: num n ffs)
  case 0
  then show ?case by simp
next
  case (Suc k)
  have n: "unat n < 14" "unat (n + 1) = unat n + 1"
    using Suc.prems(3) by (simp_all add: unat_word_ariths)
  let ?ffs = "ffs\<lparr>eps_addrmap := (eps_addrmap ffs)[unat (n + 1) := 0x81]\<rparr>"
  have "eps_count ?ffs = 0" "interfaces_count ?ffs = 0" "unat (n + 1) + k \<le> 14"
    using Suc.prems n by simp_all
  from Suc.IH [OF this, of "Suc num"] obtain h where
    "ffs_do_descs_from k (Suc num) (concat (replicate k endpoint_desc)) ffs_data_do_entity
       \<lparr>helper_ffs = ?ffs, helper_interfaces_count = 0, helper_eps_count = n + 1\<rparr> = (Inr [], h)"
    "helper_interfaces_count h = 0" "unat (helper_eps_count h) = unat (n + 1) + k"
    "eps_count (helper_ffs h) = 0" "interfaces_count (helper_ffs h) = 0"
    by blast
  moreover have "length endpoint_desc = 7" by (simp add: endpoint_desc_def)
  ultimately show ?case
    using entity_endpoint_fresh [OF Suc.prems(1,2) n(1), of "concat (replicate k endpoint_desc)"] n
    by simp
qed

text \<open>A tier of fourteen endpoint descriptors is walked to its end in a fresh session.\<close>

lemma fourteen_endpoints_accepted:
  "fst (read_descriptors [14] ffs_data_new (concat (replicate 14 endpoint_desc))) = Inr []"
proof -
  have "eps_count ffs_data_new = 0" "interfaces_count ffs_data_new = 0"
    "unat (0 :: u32) + 14 \<le> 14"
    by (simp_all add: ffs_data_new_def)
  from walk_endpoints_fresh [OF this, of 0] obtain h where
    "ffs_do_descs_from 14 0 (concat (replicate 14 endpoint_desc)) ffs_data_do_entity
       \<lparr>helper_ffs = ffs_data_new, helper_interfaces_count = 0, helper_eps_count = 0\<rparr> = (Inr [], h)"
    "eps_count (helper_ffs h) = 0" "interfaces_count (helper_ffs h) = 0"
    by blast
  then show ?thesis
    by (simp add: ffs_do_descs_def)
qed

subsection \<open>What a rejected blob leaves behind\<close>

lemma kept_refl: "kept_outside_parser ffs ffs"
  by (simp add: kept_outside_parser_def)

lemma kept_trans:
  "kept_outside_parser a b \<Longrightarrow> kept_outside_parser b c \<Longrightarrow> kept_outside_parser a c"
  by (simp add: kept_outside_parser_def)

lemma do_entity_kept:
  "ffs_data_do_entity t v d h = (r, h') \<Longrightarrow>
   kept_outside_parser (helper_ffs h) (helper_ffs h')"
  by (cases t) (auto simp: kept_outside_parser_def Let_def split: if_splits)

lemma entity_call_kept:
  "entity_call ffs_data_do_entity t v d h = (r, h') \<Longrightarrow>
   kept_outside_parser (helper_ffs h) (helper_ffs h')"
proof -
  assume a: "entity_call ffs_data_do_entity t v d h = (r, h')"
  show ?thesis
  proof (cases "entity_check t v")
    case True
    with a have "ffs_data_do_entity t (unat v) (Some d) h = (r, h')"
      by (simp add: entity_call_def del: ffs_data_do_entity.simps)
    then show ?thesis by (rule do_entity_kept)
  next
    case False
    with a show ?thesis by (simp add: entity_call_def kept_refl)
  qed
qed

lemma single_desc_kept:
  assumes "ffs_do_single_desc data ffs_data_do_entity h = (r, h')"
  shows "kept_outside_parser (helper_ffs h) (helper_ffs h')"
proof -
  note k = entity_call_kept kept_trans kept_refl
  from assms show ?thesis
    unfolding ffs_do_single_desc_def Let_def
    by (auto split: if_splits prod.splits option.splits intro: k)
qed


lemma do_descs_from_kept:
  "ffs_do_descs_from k num data ffs_data_do_entity h = (r, h') \<Longrightarrow>
   kept_outside_parser (helper_ffs h) (helper_ffs h')"
proof (induction k arbitrary: num data h)
  case 0
  then show ?case by (auto simp: kept_refl)
next
  case (Suc k)
  obtain r1 h1 where s: "ffs_do_single_desc data ffs_data_do_entity h = (r1, h1)"
    by (cases "ffs_do_single_desc data ffs_data_do_entity h") auto
  note k1 = single_desc_kept [OF s]
  show ?case
  proof (cases r1)
    case (Inl e)
    with s Suc.prems k1 show ?thesis by auto
  next
    case (Inr ret)
    with s Suc.prems have
      "ffs_do_descs_from k (Suc num) (drop ret data) ffs_data_do_entity h1 = (r, h')"
      by simp
    from kept_trans [OF k1 Suc.IH [OF this]] show ?thesis .
  qed
qed

lemma do_descs_kept:
  "ffs_do_descs count data ffs_data_do_entity h = (r, h') \<Longrightarrow>
   kept_outside_parser (helper_ffs h) (helper_ffs h')"
  by (auto simp: ffs_do_descs_def split: prod.splits sum.splits dest: do_descs_from_kept)

lemma read_descriptors_kept:
  "read_descriptors counts ffs data = (r, ffs') \<Longrightarrow> kept_outside_parser ffs ffs'"
proof (induction counts arbitrary: ffs data)
  case Nil
  then show ?case by (auto simp: kept_refl)
next
  case (Cons c counts)
  show ?case
  proof (cases "c = 0")
    case True
    with Cons.prems have "read_descriptors counts ffs data = (r, ffs')" by simp
    then show ?thesis by (rule Cons.IH)
  next
    case False
    let ?h = "\<lparr>helper_ffs = ffs, helper_interfaces_count = 0, helper_eps_count = 0\<rparr>"
    obtain r1 h1 where d: "ffs_do_descs (unat c) data ffs_data_do_entity ?h = (r1, h1)"
      by (cases "ffs_do_descs (unat c) data ffs_data_do_entity ?h") auto
    from do_descs_kept [OF d] have k1: "kept_outside_parser ffs (helper_ffs h1)" by simp
    have k2: "kept_outside_parser (helper_ffs h1)
                ((helper_ffs h1)\<lparr>eps_count := a, interfaces_count := b\<rparr>)" for a b
      by (simp add: kept_outside_parser_def)
    from Cons.prems d False consider
      (stop) "ffs' = helper_ffs h1"
      | (set) a b where "read_descriptors counts
                 ((helper_ffs h1)\<lparr>eps_count := a, interfaces_count := b\<rparr>)
                 (drop (projr r1) data) = (r, ffs')"
      | (same) "read_descriptors counts (helper_ffs h1) (drop (projr r1) data) = (r, ffs')"
      by (cases r1) (auto simp: Let_def split: if_splits)
    then show ?thesis
    proof cases
      case stop
      with k1 show ?thesis by simp
    next
      case set
      from kept_trans [OF kept_trans [OF k1 k2] Cons.IH [OF set]] show ?thesis .
    next
      case same
      from kept_trans [OF k1 Cons.IH [OF same]] show ?thesis .
    qed
  qed
qed

lemma do_os_desc_kept:
  "ffs_data_do_os_desc t h d ffs = (r, ffs') \<Longrightarrow> kept_outside_parser ffs ffs'"
  by (cases t) (auto simp: kept_outside_parser_def Let_def split: if_splits)

lemma single_os_desc_kept:
  "ffs_do_single_os_desc data t n ffs_data_do_os_desc ffs h = (r, ffs') \<Longrightarrow>
   kept_outside_parser ffs ffs'"
proof (induction n arbitrary: data ffs)
  case 0
  then show ?case by (auto simp: kept_refl)
next
  case (Suc n)
  obtain r1 ffs1 where s: "ffs_data_do_os_desc t h data ffs = (r1, ffs1)"
    by (cases "ffs_data_do_os_desc t h data ffs") auto
  note k1 = do_os_desc_kept [OF s]
  show ?case
  proof (cases r1)
    case (Inl e)
    with s Suc.prems k1 show ?thesis by auto
  next
    case (Inr ret)
    with s Suc.prems have
      "ffs_do_single_os_desc (drop ret data) t n ffs_data_do_os_desc ffs1 h = (r, ffs')"
      by simp
    from kept_trans [OF k1 Suc.IH [OF this]] show ?thesis .
  qed
qed

lemma do_os_descs_from_kept:
  "ffs_do_os_descs_from k data ffs_data_do_os_desc ffs = (r, ffs') \<Longrightarrow>
   kept_outside_parser ffs ffs'"
proof (induction k arbitrary: data ffs)
  case 0
  then show ?case by (auto simp: kept_refl)
next
  case (Suc k)
  from Suc.prems consider
    (stop) "ffs' = ffs"
    | (single) ty ret n e where
        "ffs_do_single_os_desc (drop ret data) ty n ffs_data_do_os_desc ffs data = (Inl e, ffs')"
    | (rec) ty ret n rest ffs1 where
        "ffs_do_single_os_desc (drop ret data) ty n ffs_data_do_os_desc ffs data = (Inr rest, ffs1)"
        "ffs_do_os_descs_from k rest ffs_data_do_os_desc ffs1 = (r, ffs')"
    by (auto simp: Let_def split: if_splits sum.splits prod.splits)
  then show ?case
  proof cases
    case stop
    then show ?thesis by (simp add: kept_refl)
  next
    case single
    then show ?thesis by (rule single_os_desc_kept)
  next
    case rec
    from kept_trans [OF single_os_desc_kept [OF rec(1)] Suc.IH [OF rec(2)]] show ?thesis .
  qed
qed

lemma do_os_descs_kept:
  "ffs_do_os_descs count data ffs_data_do_os_desc ffs = (r, ffs') \<Longrightarrow>
   kept_outside_parser ffs ffs'"
  by (auto simp: ffs_do_os_descs_def split: prod.splits sum.splits dest: do_os_descs_from_kept)


lemma got_descs_eventfd_kept:
  "got_descs_eventfd fdget ffs flags data = Inl (e, ffs1) \<Longrightarrow> kept_outside_parser ffs ffs1"
  "got_descs_eventfd fdget ffs flags data = Inr (ffs1, data1) \<Longrightarrow> kept_outside_parser ffs ffs1"
  by (auto simp: got_descs_eventfd_def kept_outside_parser_def split: if_splits sum.splits)

lemma got_descs_body_rejected:
  assumes "got_descs_body fdget ffs blob flags data = (Some e, ffs')"
  shows "kept_outside_parser ffs ffs'"
proof (cases "got_descs_eventfd fdget ffs flags data")
  case (Inl a)
  with assms got_descs_eventfd_kept(1) [of fdget ffs flags data "fst a" "snd a"]
  show ?thesis by (cases a) (simp add: got_descs_body_def)
next
  case (Inr b)
  obtain ffs1 data1 where b: "b = (ffs1, data1)" by (cases b)
  with Inr got_descs_eventfd_kept(2) have k1: "kept_outside_parser ffs ffs1" by simp
  show ?thesis
  proof (cases "got_descs_counts flags data1")
    case None
    with assms Inr b k1 show ?thesis by (simp add: got_descs_body_def)
  next
    case (Some c)
    obtain c0 c1 c2 os raw where c: "c = (c0, c1, c2, os, raw)" by (cases c)
    obtain r ffs2 where rd: "read_descriptors [c0, c1, c2] ffs1 raw = (r, ffs2)"
      by (cases "read_descriptors [c0, c1, c2] ffs1 raw")
    note k2 = kept_trans [OF k1 read_descriptors_kept [OF rd]]
    show ?thesis
    proof (cases r)
      case (Inl e1)
      with assms Inr b Some c rd k2 show ?thesis
        by (simp add: got_descs_body_def del: read_descriptors.simps)
    next
      case (Inr data5)
      obtain r' ffs3 where os: "(if os \<noteq> 0
            then ffs_do_os_descs (unat os) data5 ffs_data_do_os_desc ffs2
            else (Inr 0, ffs2)) = (r', ffs3)"
        by (cases "(if os \<noteq> 0
            then ffs_do_os_descs (unat os) data5 ffs_data_do_os_desc ffs2
            else (Inr 0, ffs2))")
      then have "kept_outside_parser ffs2 ffs3"
        by (auto simp: kept_refl split: if_splits dest: do_os_descs_kept)
      note k3 = kept_trans [OF k2 this]
      from assms \<open>got_descs_eventfd fdget ffs flags data = Inr b\<close> b Some c rd Inr os
      have "ffs' = ffs3"
        by (cases r') (simp_all add: got_descs_body_def Let_def del: read_descriptors.simps
            split: if_splits)
      with k3 show ?thesis by simp
    qed
  qed
qed

lemma got_descs_rejected:
  assumes "ffs_data_got_descs fdget ffs blob = (Some e, ffs')"
  shows "kept_outside_parser ffs ffs'"
proof -
  have uf: "kept_outside_parser ffs (ffs\<lparr>user_flags := x\<rparr>)" for x
    by (simp add: kept_outside_parser_def)
  from assms consider "ffs' = ffs" | x where "ffs' = ffs\<lparr>user_flags := x\<rparr>"
    | flags data where "got_descs_body fdget ffs blob flags data = (Some e, ffs')"
    | x flags data where
        "got_descs_body fdget (ffs\<lparr>user_flags := x\<rparr>) blob flags data = (Some e, ffs')"
    by (auto simp: ffs_data_got_descs_def Let_def split: if_splits)
  then show ?thesis
  proof cases
    case 1
    then show ?thesis by (simp add: kept_refl)
  next
    case 2
    then show ?thesis by (simp add: uf)
  next
    case 3
    then show ?thesis by (rule got_descs_body_rejected)
  next
    case 4
    from kept_trans [OF uf got_descs_body_rejected [OF 4]] show ?thesis .
  qed
qed

lemma got_descs_invalid_magic:
  "get_unaligned_le32 blob \<noteq> FUNCTIONFS_DESCRIPTORS_MAGIC \<Longrightarrow>
   get_unaligned_le32 blob \<noteq> FUNCTIONFS_DESCRIPTORS_MAGIC_V2 \<Longrightarrow>
   ffs_data_got_descs fdget ffs blob = (Some EINVAL, ffs)"
  by (simp add: ffs_data_got_descs_def)

lemma got_strings_rejected:
  "ffs_data_got_strings kmalloc_fails ffs blob = (Some e, ffs') \<Longrightarrow> ffs' = ffs"
  by (auto simp: ffs_data_got_strings_def Let_def split: if_splits option.splits prod.splits)

text \<open>
  C6, as the code has it.  A write to the control file of a live instance in one of the
  two collecting states, of a blob of at least 16 bytes that the parser rejects, fails
  with the parser's error; the lifecycle state, the stored blobs and tables, the event
  queue and the setup sub-state are as before.  A rejected string blob leaves the whole
  session as it was, and so does a descriptor blob whose magic is none of the known
  tags, which fails with \<^verbatim>\<open>EINVAL\<close>.  (What a descriptor blob rejected later may
  leave changed are the fields that the walk accumulates.)
\<close>

theorem rejected_blob_is_discarded:
  assumes "env_inst_exist_check env = None" and "setup_state ffs \<noteq> FFS_SETUP_CANCELLED"
    and "env_mutex_lock env = None" and "16 \<le> length buf" and "env_buffer env = None"
    and "state ffs = FFS_READ_DESCRIPTORS \<or> state ffs = FFS_READ_STRINGS"
    and "(if state ffs = FFS_READ_DESCRIPTORS
          then fst (ffs_data_got_descs (env_eventfd_ctx_fdget env) ffs buf)
          else fst (ffs_data_got_strings (env_kmalloc_fails env) ffs buf)) = Some e"
  shows "\<exists>ffs'. ffs_ep0_write env ffs buf = Some (Inl e, ffs', [], NoOutput) \<and>
           kept_outside_parser ffs ffs' \<and>
           (state ffs = FFS_READ_STRINGS \<or>
            get_unaligned_le32 buf \<noteq> FUNCTIONFS_DESCRIPTORS_MAGIC \<and>
            get_unaligned_le32 buf \<noteq> FUNCTIONFS_DESCRIPTORS_MAGIC_V2 \<longrightarrow> ffs' = ffs) \<and>
           (state ffs = FFS_READ_DESCRIPTORS \<and>
            get_unaligned_le32 buf \<noteq> FUNCTIONFS_DESCRIPTORS_MAGIC \<and>
            get_unaligned_le32 buf \<noteq> FUNCTIONFS_DESCRIPTORS_MAGIC_V2 \<longrightarrow> e = EINVAL)"
proof (cases "state ffs = FFS_READ_DESCRIPTORS")
  case True
  obtain ffs' where g: "ffs_data_got_descs (env_eventfd_ctx_fdget env) ffs buf = (Some e, ffs')"
    using assms(7) True by (cases "ffs_data_got_descs (env_eventfd_ctx_fdget env) ffs buf") simp
  have w: "ffs_ep0_write env ffs buf = Some (Inl e, ffs', [], NoOutput)"
    using assms(1-5) True g
    by (simp add: ffs_ep0_write_def ep0_write_collecting_def ffs_setup_state_clear_cancelled_def)
  have k: "kept_outside_parser ffs ffs'"
    using g by (rule got_descs_rejected)
  have "ffs' = ffs \<and> e = EINVAL"
    if "get_unaligned_le32 buf \<noteq> FUNCTIONFS_DESCRIPTORS_MAGIC"
      "get_unaligned_le32 buf \<noteq> FUNCTIONFS_DESCRIPTORS_MAGIC_V2"
    using got_descs_invalid_magic [OF that, of "env_eventfd_ctx_fdget env" ffs] g by simp
  with w k True show ?thesis by auto
next
  case False
  with assms(6) have s: "state ffs = FFS_READ_STRINGS" by simp
  obtain ffs' where g: "ffs_data_got_strings (env_kmalloc_fails env) ffs buf = (Some e, ffs')"
    using assms(7) False by (cases "ffs_data_got_strings (env_kmalloc_fails env) ffs buf") simp
  from got_strings_rejected [OF g] have e: "ffs' = ffs" .
  have w: "ffs_ep0_write env ffs buf = Some (Inl e, ffs, [], NoOutput)"
    using assms(1-5) s g e
    by (simp add: ffs_ep0_write_def ep0_write_collecting_def ffs_setup_state_clear_cancelled_def)
  with s show ?thesis by (auto simp: kept_refl)
qed

theorem rejected_blob_is_discarded_witness:
  "state ffs_data_new = FFS_READ_DESCRIPTORS \<and> 16 \<le> length blob_invalid_magic \<and>
   get_unaligned_le32 blob_invalid_magic \<noteq> FUNCTIONFS_DESCRIPTORS_MAGIC \<and>
   get_unaligned_le32 blob_invalid_magic \<noteq> FUNCTIONFS_DESCRIPTORS_MAGIC_V2 \<and>
   ffs_ep0_write ep0_env_quiet ffs_data_new blob_invalid_magic =
     Some (Inl EINVAL, ffs_data_new, [], NoOutput)"
proof -
  have m: "get_unaligned_le32 blob_invalid_magic \<noteq> FUNCTIONFS_DESCRIPTORS_MAGIC"
    "get_unaligned_le32 blob_invalid_magic \<noteq> FUNCTIONFS_DESCRIPTORS_MAGIC_V2"
    by (simp_all add: get_unaligned_le32_def blob_invalid_magic_def
        FUNCTIONFS_DESCRIPTORS_MAGIC_def FUNCTIONFS_DESCRIPTORS_MAGIC_V2_def)
  have a: "env_inst_exist_check ep0_env_quiet = None"
    "setup_state ffs_data_new \<noteq> FFS_SETUP_CANCELLED"
    "env_mutex_lock ep0_env_quiet = None" "16 \<le> length blob_invalid_magic"
    "env_buffer ep0_env_quiet = None"
    "state ffs_data_new = FFS_READ_DESCRIPTORS \<or> state ffs_data_new = FFS_READ_STRINGS"
    by (simp_all add: ep0_env_quiet_def ffs_data_new_def blob_invalid_magic_def)
  have s: "state ffs_data_new = FFS_READ_DESCRIPTORS"
    by (simp add: ffs_data_new_def)
  have r: "(if state ffs_data_new = FFS_READ_DESCRIPTORS
          then fst (ffs_data_got_descs (env_eventfd_ctx_fdget ep0_env_quiet) ffs_data_new
                      blob_invalid_magic)
          else fst (ffs_data_got_strings (env_kmalloc_fails ep0_env_quiet) ffs_data_new
                      blob_invalid_magic)) = Some EINVAL"
    using m s by (simp add: got_descs_invalid_magic)
  from rejected_blob_is_discarded [OF a r] m s a(4) show ?thesis
    by auto
qed


end
